theory Spec2Isabelle
  imports Main "HOL-Library.Sublist"
begin

section \<open>Message model (main.go, lines 29-66)\<close>

text \<open>
  \<^verbatim>\<open>type MsgRole string\<close>: a role is an open Go string, i.e. a sequence of bytes. The three
  constants are the only roles the program ever compares against.
\<close>

type_synonym MsgRole = string

definition USER :: MsgRole where
  "USER = ''user''"

definition ASSISTANT :: MsgRole where
  "ASSISTANT = ''assistant''"

definition SYSTEM :: MsgRole where
  "SYSTEM = ''system''"

text \<open>
  \<^verbatim>\<open>Message {Role, Content}\<close> and \<^verbatim>\<open>MessageIn {Role, Content, File}\<close>. In Go these are two separate
  struct types; here \<open>MessageIn\<close> extends \<open>Message\<close> so that both keep the field names of the
  source.
\<close>

record Message =
  Role :: MsgRole
  Content :: string

record MessageIn = Message +
  File :: string

record ResponseChoice =
  Message :: Message

record Usage =
  PromptTokens :: int
  CompletionTokens :: int

record ResponseBody =
  Choices :: "ResponseChoice list"
  Usage :: Usage

text \<open>The fields of \<^verbatim>\<open>Config\<close> that the modelled code reads after \<^verbatim>\<open>loadConfig\<close> has returned.
  \<^verbatim>\<open>APIKey\<close>, \<^verbatim>\<open>URL\<close> and \<^verbatim>\<open>Temperature\<close> only travel into the HTTP request.\<close>

record Config =
  Model :: string
  InputFile :: string
  InputDir :: string
  PromptsDir :: string
  LogsDir :: string

section \<open>JSON texts and the behaviour of encoding/json on the program's types\<close>

text \<open>
  The program hands all JSON work to Go's \<^verbatim>\<open>encoding/json\<close>: \<^verbatim>\<open>json.MarshalIndent\<close> writes the
  transcript, \<^verbatim>\<open>json.Unmarshal\<close> reads the input file and the replies. This section gives what
  these library functions do on the types of the program, on texts as byte strings. A JSON
  value: \<open>JInt\<close> is a number literal without fraction or exponent, \<open>JFrac\<close> any other number
  literal; a \<open>JStr\<close> carries the bytes of the decoded string.
\<close>

datatype json =
    JNull
  | JBool bool
  | JInt int
  | JFrac
  | JStr string
  | JArr "json list"
  | JObj "(string \<times> json) list"

subsection \<open>UTF-8\<close>

text \<open>
  \<^verbatim>\<open>utf8.DecodeRuneInString\<close>: \<open>rune_width\<close> gives the width of the well-formed UTF-8 sequence
  at the front of a string whose first byte is not ASCII, or \<open>None\<close> where Go returns
  \<^verbatim>\<open>(RuneError, 1)\<close>. \<open>utf8_first\<close> is Go's table \<^verbatim>\<open>first\<close> together with \<^verbatim>\<open>acceptRanges\<close>: the width
  announced by the first byte and the range allowed for the second byte.
\<close>

definition utf8_first :: "nat \<Rightarrow> (nat \<times> nat \<times> nat) option" where
  "utf8_first b =
     (if 0xC2 \<le> b \<and> b \<le> 0xDF then Some (2, 0x80, 0xBF)
      else if b = 0xE0 then Some (3, 0xA0, 0xBF)
      else if 0xE1 \<le> b \<and> b \<le> 0xEC then Some (3, 0x80, 0xBF)
      else if b = 0xED then Some (3, 0x80, 0x9F)
      else if 0xEE \<le> b \<and> b \<le> 0xEF then Some (3, 0x80, 0xBF)
      else if b = 0xF0 then Some (4, 0x90, 0xBF)
      else if 0xF1 \<le> b \<and> b \<le> 0xF3 then Some (4, 0x80, 0xBF)
      else if b = 0xF4 then Some (4, 0x80, 0x8F)
      else None)"

definition continuation :: "char \<Rightarrow> bool" where
  "continuation c = (0x80 \<le> (of_char c :: nat) \<and> (of_char c :: nat) \<le> 0xBF)"

definition rune_width :: "char \<Rightarrow> string \<Rightarrow> nat option" where
  "rune_width c cs =
     (case utf8_first (of_char c) of
        None \<Rightarrow> None
      | Some (sz, lo, hi) \<Rightarrow>
          if length cs < sz - 1 then None
          else if (of_char (cs ! 0) :: nat) < lo \<or> hi < (of_char (cs ! 0) :: nat) then None
          else if sz \<le> 2 then Some 2
          else if \<not> continuation (cs ! 1) then None
          else if sz \<le> 3 then Some 3
          else if \<not> continuation (cs ! 2) then None
          else Some 4)"

text \<open>\<^verbatim>\<open>utf8.EncodeRune\<close>: the bytes of a code point; surrogates and values beyond U+10FFFF give
  the bytes of U+FFFD.\<close>

definition EncodeRune :: "nat \<Rightarrow> string" where
  "EncodeRune r =
     (if r < 0x80 then [char_of r]
      else if r < 0x800 then [char_of (0xC0 + r div 64), char_of (0x80 + r mod 64)]
      else if (0xD800 \<le> r \<and> r \<le> 0xDFFF) \<or> 0x10FFFF < r then [CHR 0xEF, CHR 0xBF, CHR 0xBD]
      else if r < 0x10000 then
        [char_of (0xE0 + r div 4096), char_of (0x80 + r div 64 mod 64), char_of (0x80 + r mod 64)]
      else
        [char_of (0xF0 + r div 262144), char_of (0x80 + r div 4096 mod 64),
         char_of (0x80 + r div 64 mod 64), char_of (0x80 + r mod 64)])"

subsection \<open>Writing: \<^verbatim>\<open>json.MarshalIndent(messages, "", "  ")\<close>\<close>

text \<open>
  \<^verbatim>\<open>appendString\<close> of encode.go with HTML escaping on, as \<^verbatim>\<open>Marshal\<close> has it: the text between the
  quotes of a string literal. Printable ASCII other than the quote, the backslash and
  \<^verbatim>\<open><\<close>, \<^verbatim>\<open>>\<close>, \<^verbatim>\<open>&\<close> is copied; a byte that starts no well-formed UTF-8 sequence is written as
  the escape of U+FFFD; U+2028 and U+2029 are escaped; other well-formed sequences are copied.
\<close>

definition hex :: "nat \<Rightarrow> char" where
  "hex n = ''0123456789abcdef'' ! n"

definition htmlSafe :: "char \<Rightarrow> bool" where
  "htmlSafe c =
     (0x20 \<le> (of_char c :: nat) \<and> c \<noteq> CHR 0x22 \<and> c \<noteq> CHR 0x5C \<and> c \<noteq> CHR ''<'' \<and> c \<noteq> CHR ''>'' \<and>
      c \<noteq> CHR ''&'')"

fun appendString :: "string \<Rightarrow> string" where
  "appendString [] = []"
| "appendString (b # src) =
     (if (of_char b :: nat) < 0x80 then
        (if htmlSafe b then b # appendString src
         else if b = CHR 0x5C \<or> b = CHR 0x22 then CHR 0x5C # b # appendString src
         else if b = CHR 0x08 then CHR 0x5C # CHR ''b'' # appendString src
         else if b = CHR 0x0C then CHR 0x5C # CHR ''f'' # appendString src
         else if b = CHR 0x0A then CHR 0x5C # CHR ''n'' # appendString src
         else if b = CHR 0x0D then CHR 0x5C # CHR ''r'' # appendString src
         else if b = CHR 0x09 then CHR 0x5C # CHR ''t'' # appendString src
         else CHR 0x5C # CHR ''u'' # CHR ''0'' # CHR ''0'' # hex (of_char b div 16) #
              hex (of_char b mod 16) # appendString src)
      else case rune_width b src of
        None \<Rightarrow> CHR 0x5C # CHR ''u'' # CHR ''f'' # CHR ''f'' # CHR ''f'' # CHR ''d'' # appendString src
      | Some width \<Rightarrow>
          if b = CHR 0xE2 \<and> take 2 src = [CHR 0x80, CHR 0xA8] then
            CHR 0x5C # CHR ''u'' # CHR ''2'' # CHR ''0'' # CHR ''2'' # CHR ''8'' # appendString (drop 2 src)
          else if b = CHR 0xE2 \<and> take 2 src = [CHR 0x80, CHR 0xA9] then
            CHR 0x5C # CHR ''u'' # CHR ''2'' # CHR ''0'' # CHR ''2'' # CHR ''9'' # appendString (drop 2 src)
          else b # take (width - 1) src @ appendString (drop (width - 1) src))"

definition quote :: "string \<Rightarrow> string" where
  "quote s = CHR 0x22 # appendString s @ [CHR 0x22]"

definition newline :: string where
  "newline = [CHR 0x0A]"

text \<open>
  A \<^verbatim>\<open>Message\<close> is written as an object with the members \<^verbatim>\<open>role\<close> and \<^verbatim>\<open>content\<close>, in the order of
  the struct's fields; the slice \<^verbatim>\<open>messages\<close> is never nil in \<^verbatim>\<open>main\<close>, so it is written as an
  array, \<^verbatim>\<open>[]\<close> when empty. With the empty prefix and an indent of two spaces every element and
  every member stands on a line of its own, a space follows each colon, and nothing follows
  the closing bracket.
\<close>

definition indent_Message :: "Message \<Rightarrow> string" where
  "indent_Message m =
     ''  {'' @ newline @
     ''    '' @ quote ''role'' @ '': '' @ quote (Role m) @ '','' @ newline @
     ''    '' @ quote ''content'' @ '': '' @ quote (Content m) @ newline @
     ''  }''"

fun indent_rest :: "Message list \<Rightarrow> string" where
  "indent_rest [] = newline @ '']''"
| "indent_rest (m # ms) = '','' @ newline @ indent_Message m @ indent_rest ms"

fun MarshalIndent_Messages :: "Message list \<Rightarrow> string" where
  "MarshalIndent_Messages [] = ''[]''"
| "MarshalIndent_Messages (m # ms) = ''['' @ newline @ indent_Message m @ indent_rest ms"

subsection \<open>Reading: the JSON text behind \<^verbatim>\<open>json.Unmarshal\<close>\<close>

text \<open>
  String literals, as the scanner delimits them and \<^verbatim>\<open>unquote\<close> of decode.go decodes them.
  \<open>unquote\<close> takes the text after the opening quote and returns the decoded bytes with the
  text after the closing quote. An escape is one of the eight short ones, or a backslash and
  the letter u with four hexadecimal digits; a surrogate pair written as two such escapes gives one code point, a
  lone surrogate gives U+FFFD; a byte below 0x20 is not allowed; a byte that starts no
  well-formed UTF-8 sequence is replaced by U+FFFD.
\<close>

definition hexval :: "char \<Rightarrow> nat option" where
  "hexval c =
     (let n = (of_char c :: nat) in
      if 48 \<le> n \<and> n \<le> 57 then Some (n - 48)
      else if 97 \<le> n \<and> n \<le> 102 then Some (n - 87)
      else if 65 \<le> n \<and> n \<le> 70 then Some (n - 55)
      else None)"

fun getu4 :: "string \<Rightarrow> nat option" where
  "getu4 (b # u # h1 # h2 # h3 # h4 # s) =
     (if b = CHR 0x5C \<and> u = CHR ''u'' then
        (case (hexval h1, hexval h2, hexval h3, hexval h4) of
           (Some w, Some x, Some y, Some z) \<Rightarrow> Some (((w * 16 + x) * 16 + y) * 16 + z)
         | _ \<Rightarrow> None)
      else None)"
| "getu4 _ = None"

definition simple_escape :: "char \<Rightarrow> char option" where
  "simple_escape e =
     (if e = CHR 0x22 \<or> e = CHR 0x5C \<or> e = CHR ''/'' then Some e
      else if e = CHR ''b'' then Some (CHR 0x08)
      else if e = CHR ''f'' then Some (CHR 0x0C)
      else if e = CHR ''n'' then Some (CHR 0x0A)
      else if e = CHR ''r'' then Some (CHR 0x0D)
      else if e = CHR ''t'' then Some (CHR 0x09)
      else None)"

definition prepend :: "string \<Rightarrow> (string \<times> string) option \<Rightarrow> (string \<times> string) option" where
  "prepend bs r = (case r of None \<Rightarrow> None | Some (s, rest) \<Rightarrow> Some (bs @ s, rest))"

fun unquote :: "string \<Rightarrow> (string \<times> string) option" where
  "unquote [] = None"
| "unquote (c # s) =
     (if c = CHR 0x22 then Some ([], s)
      else if c = CHR 0x5C then
        (case s of
           [] \<Rightarrow> None
         | e # s' \<Rightarrow>
             if e = CHR ''u'' then
               (case getu4 (c # s) of
                  None \<Rightarrow> None
                | Some rr \<Rightarrow>
                    if 0xD800 \<le> rr \<and> rr < 0xE000 then
                      (case getu4 (drop 4 s') of
                         None \<Rightarrow> prepend [CHR 0xEF, CHR 0xBF, CHR 0xBD] (unquote (drop 4 s'))
                       | Some rr1 \<Rightarrow>
                           if rr < 0xDC00 \<and> 0xDC00 \<le> rr1 \<and> rr1 < 0xE000 then
                             prepend (EncodeRune ((rr - 0xD800) * 1024 + (rr1 - 0xDC00) + 0x10000))
                               (unquote (drop 10 s'))
                           else prepend [CHR 0xEF, CHR 0xBF, CHR 0xBD] (unquote (drop 4 s')))
                    else prepend (EncodeRune rr) (unquote (drop 4 s')))
             else
               (case simple_escape e of
                  None \<Rightarrow> None
                | Some d \<Rightarrow> prepend [d] (unquote s')))
      else if (of_char c :: nat) < 0x20 then None
      else if (of_char c :: nat) < 0x80 then prepend [c] (unquote s)
      else
        (case rune_width c s of
           None \<Rightarrow> prepend [CHR 0xEF, CHR 0xBF, CHR 0xBD] (unquote s)
         | Some width \<Rightarrow> prepend (c # take (width - 1) s) (unquote (drop (width - 1) s))))"

text \<open>Number literals: an optional minus, digits without a leading zero, an optional fraction
  and an optional exponent. The result is the value and the text after the literal.\<close>

definition is_digit :: "char \<Rightarrow> bool" where
  "is_digit c = (48 \<le> (of_char c :: nat) \<and> (of_char c :: nat) \<le> 57)"

definition digits_value :: "string \<Rightarrow> nat" where
  "digits_value ds = foldl (\<lambda>v c. v * 10 + ((of_char c :: nat) - 48)) 0 ds"

definition scan_frac :: "string \<Rightarrow> (bool \<times> string) option" where
  "scan_frac s =
     (case s of
        c # cs \<Rightarrow>
          if c = CHR ''.'' then
            (if takeWhile is_digit cs = [] then None else Some (True, dropWhile is_digit cs))
          else Some (False, s)
      | [] \<Rightarrow> Some (False, s))"

definition scan_exp :: "string \<Rightarrow> (bool \<times> string) option" where
  "scan_exp s =
     (case s of
        c # cs \<Rightarrow>
          if c = CHR ''e'' \<or> c = CHR ''E'' then
            (let cs' = (case cs of d # ds \<Rightarrow> if d = CHR ''+'' \<or> d = CHR ''-'' then ds else cs
                                 | [] \<Rightarrow> cs)
             in if takeWhile is_digit cs' = [] then None else Some (True, dropWhile is_digit cs'))
          else Some (False, s)
      | [] \<Rightarrow> Some (False, s))"

definition scan_number :: "string \<Rightarrow> (json \<times> string) option" where
  "scan_number s =
     (let neg = (take 1 s = [CHR ''-'']);
          s1 = (if neg then drop 1 s else s);
          ds = takeWhile is_digit s1
      in if ds = [] \<or> (1 < length ds \<and> hd ds = CHR ''0'') then None
         else
           (case scan_frac (dropWhile is_digit s1) of
              None \<Rightarrow> None
            | Some (has_frac, s2) \<Rightarrow>
                (case scan_exp s2 of
                   None \<Rightarrow> None
                 | Some (has_exp, s3) \<Rightarrow>
                     Some (if has_frac \<or> has_exp then JFrac
                           else JInt (if neg then - int (digits_value ds) else int (digits_value ds)),
                           s3))))"

text \<open>The tokens of a text. White space is space, tab, carriage return and line feed.\<close>

datatype token = LBracket | RBracket | LBrace | RBrace | Comma | Colon | Scalar json

definition is_space :: "char \<Rightarrow> bool" where
  "is_space c = (c = CHR 0x20 \<or> c = CHR 0x09 \<or> c = CHR 0x0D \<or> c = CHR 0x0A)"

definition emit :: "token \<Rightarrow> token list option \<Rightarrow> token list option" where
  "emit t r = (case r of None \<Rightarrow> None | Some ts \<Rightarrow> Some (t # ts))"

function lex :: "string \<Rightarrow> token list option" where
  "lex [] = Some []"
| "lex (c # s) =
     (if is_space c then lex s
      else if c = CHR ''['' then emit LBracket (lex s)
      else if c = CHR '']'' then emit RBracket (lex s)
      else if c = CHR ''{'' then emit LBrace (lex s)
      else if c = CHR ''}'' then emit RBrace (lex s)
      else if c = CHR '','' then emit Comma (lex s)
      else if c = CHR '':'' then emit Colon (lex s)
      else if c = CHR 0x22 then
        (case unquote s of None \<Rightarrow> None | Some (v, rest) \<Rightarrow> emit (Scalar (JStr v)) (lex rest))
      else if c = CHR ''t'' \<and> take 3 s = ''rue'' then emit (Scalar (JBool True)) (lex (drop 3 s))
      else if c = CHR ''f'' \<and> take 4 s = ''alse'' then emit (Scalar (JBool False)) (lex (drop 4 s))
      else if c = CHR ''n'' \<and> take 3 s = ''ull'' then emit (Scalar JNull) (lex (drop 3 s))
      else if c = CHR ''-'' \<or> is_digit c then
        (case scan_number (c # s) of
           None \<Rightarrow> None
         | Some (v, rest) \<Rightarrow> emit (Scalar v) (lex rest))
      else None)"
  by pat_completeness auto
termination
proof (relation "measure length")
  have prepend_rest: "\<exists>v'. r = Some (v', rest)" if "prepend bs r = Some (v, rest)" for bs r v rest
    using that by (cases r) (auto simp: prepend_def)
  have unquote_shorter: "length rest < length s" if "unquote s = Some (v, rest)" for s v rest
    using that
  proof (induction "length s" arbitrary: s v rest rule: less_induct)
    case less
    then obtain c cs where s: "s = c # cs" by (cases s) auto
    have ih: "\<And>t v' rest'. unquote t = Some (v', rest') \<Longrightarrow> length t < length s \<Longrightarrow>
        length rest' < length t"
      using less.hyps by blast
    from less.prems s show ?case
      apply (auto simp: s split: if_splits list.splits option.splits)
      apply (drule prepend_rest, clarify, frule ih, simp add: s, simp add: s)+
      done
  qed
  have scan_frac_shorter: "length rest \<le> length s" if "scan_frac s = Some (b, rest)" for s b rest
    using that
    by (auto simp: scan_frac_def le_SucI length_dropWhile_le split: list.splits if_splits)
  have scan_exp_shorter: "length rest \<le> length s" if a: "scan_exp s = Some (b, rest)" for s b rest
  proof (cases s)
    case Nil
    with a show ?thesis by (simp add: scan_exp_def)
  next
    case (Cons c cs)
    show ?thesis
    proof (cases "c = CHR ''e'' \<or> c = CHR ''E''")
      case False
      with a Cons show ?thesis by (auto simp: scan_exp_def)
    next
      case True
      define cs' where "cs' = (case cs of d # ds \<Rightarrow> if d = CHR ''+'' \<or> d = CHR ''-'' then ds else cs
                                   | [] \<Rightarrow> cs)"
      have "length cs' \<le> length cs"
        by (auto simp: cs'_def split: list.splits)
      moreover have "rest = dropWhile is_digit cs'"
        using a Cons True by (auto simp: scan_exp_def cs'_def Let_def split: if_splits)
      moreover have "length (dropWhile is_digit cs') \<le> length cs'"
        by (rule length_dropWhile_le)
      ultimately show ?thesis using Cons by simp
    qed
  qed
  have scan_number_shorter: "length rest < length s" if a: "scan_number s = Some (v, rest)"
    for s v rest
  proof -
    define s1 where "s1 = (if take 1 s = [CHR ''-''] then drop 1 s else s)"
    have s1: "length s1 \<le> length s" by (simp add: s1_def)
    from a have ne: "takeWhile is_digit s1 \<noteq> []"
      by (auto simp: scan_number_def s1_def Let_def split: if_splits)
    have "length (takeWhile is_digit s1) + length (dropWhile is_digit s1) = length s1"
      by (metis length_append takeWhile_dropWhile_id)
    with ne have d: "length (dropWhile is_digit s1) < length s1"
      by (cases "takeWhile is_digit s1") auto
    from a obtain f s2 e where f: "scan_frac (dropWhile is_digit s1) = Some (f, s2)"
      and e: "scan_exp s2 = Some (e, rest)"
      by (auto simp: scan_number_def s1_def Let_def split: if_splits option.splits)
    from scan_frac_shorter [OF f] scan_exp_shorter [OF e] d s1 show ?thesis by simp
  qed
  show "wf (measure length)" by simp
  show "(rest, c # s) \<in> measure length"
    if "unquote s = Some x2" "(v, rest) = x2" for c s x2 v rest
  proof -
    from that have "unquote s = Some (v, rest)" by simp
    from unquote_shorter [OF this] show ?thesis by simp
  qed
  show "(rest, c # s) \<in> measure length"
    if "scan_number (c # s) = Some x2" "(v, rest) = x2" for c s x2 v rest
  proof -
    from that have "scan_number (c # s) = Some (v, rest)" by simp
    from scan_number_shorter [OF this] show ?thesis by simp
  qed
qed simp_all

text \<open>
  The structure of a text, read off its tokens with a stack of the arrays and objects that
  are open; a text nested deeper than \<^verbatim>\<open>maxNestingDepth\<close> is refused, as the scanner does. A text
  is one value; anything but white space after it is an error.
\<close>

datatype frame = InArr "json list" | InObj "(string \<times> json) list" "string option"

datatype mode = WantValue | WantValueOrClose | WantKeyOrClose | WantKey | WantColon | AfterValue
  | Finished json

definition deliver :: "json \<Rightarrow> frame list \<Rightarrow> (mode \<times> frame list) option" where
  "deliver v stack =
     (case stack of
        [] \<Rightarrow> Some (Finished v, [])
      | InArr es # below \<Rightarrow> Some (AfterValue, InArr (es @ [v]) # below)
      | InObj ms None # below \<Rightarrow> None
      | InObj ms (Some k) # below \<Rightarrow> Some (AfterValue, InObj (ms @ [(k, v)]) None # below))"

definition maxNestingDepth :: nat where
  "maxNestingDepth = 10000"

definition open_value :: "token \<Rightarrow> frame list \<Rightarrow> (mode \<times> frame list) option" where
  "open_value t stack =
     (case t of
        Scalar v \<Rightarrow> deliver v stack
      | LBracket \<Rightarrow>
          if length stack < maxNestingDepth then Some (WantValueOrClose, InArr [] # stack) else None
      | LBrace \<Rightarrow>
          if length stack < maxNestingDepth then Some (WantKeyOrClose, InObj [] None # stack) else None
      | _ \<Rightarrow> None)"

definition close_array :: "frame list \<Rightarrow> (mode \<times> frame list) option" where
  "close_array stack = (case stack of InArr es # below \<Rightarrow> deliver (JArr es) below | _ \<Rightarrow> None)"

definition close_object :: "frame list \<Rightarrow> (mode \<times> frame list) option" where
  "close_object stack =
     (case stack of InObj ms None # below \<Rightarrow> deliver (JObj ms) below | _ \<Rightarrow> None)"

definition take_key :: "token \<Rightarrow> frame list \<Rightarrow> (mode \<times> frame list) option" where
  "take_key t stack =
     (case (t, stack) of
        (Scalar (JStr k), InObj ms None # below) \<Rightarrow> Some (WantColon, InObj ms (Some k) # below)
      | _ \<Rightarrow> None)"

fun advance :: "token \<Rightarrow> mode \<times> frame list \<Rightarrow> (mode \<times> frame list) option" where
  "advance t (WantValue, stack) = open_value t stack"
| "advance t (WantValueOrClose, stack) = (if t = RBracket then close_array stack else open_value t stack)"
| "advance t (WantKeyOrClose, stack) = (if t = RBrace then close_object stack else take_key t stack)"
| "advance t (WantKey, stack) = take_key t stack"
| "advance t (WantColon, stack) = (if t = Colon then Some (WantValue, stack) else None)"
| "advance t (AfterValue, stack) =
     (if t = Comma then
        (case stack of
           InArr es # below \<Rightarrow> Some (WantValue, stack)
         | InObj ms k # below \<Rightarrow> Some (WantKey, stack)
         | [] \<Rightarrow> None)
      else if t = RBracket then close_array stack
      else if t = RBrace then close_object stack
      else None)"
| "advance t (Finished v, stack) = None"

fun run :: "token list \<Rightarrow> mode \<times> frame list \<Rightarrow> json option" where
  "run [] st = (case st of (Finished v, []) \<Rightarrow> Some v | _ \<Rightarrow> None)"
| "run (t # ts) st = (case advance t st of None \<Rightarrow> None | Some st' \<Rightarrow> run ts st')"

definition parse_json :: "string \<Rightarrow> json option" where
  "parse_json s = (case lex s of None \<Rightarrow> None | Some ts \<Rightarrow> run ts (WantValue, []))"

text \<open>What \<^verbatim>\<open>Unmarshal\<close> makes of the bytes before it looks at the target: not a JSON text
  (a syntax error, nothing is stored), or the value of the text.\<close>

datatype wire = Unparsable | JSONText json

definition scan :: "string \<Rightarrow> wire" where
  "scan data = (case parse_json data of None \<Rightarrow> Unparsable | Some v \<Rightarrow> JSONText v)"

subsection \<open>Unmarshal: JSON to the program's structs\<close>

text \<open>
  Member names are matched to struct fields by exact name or, failing that, ignoring case in
  the sense of \<^verbatim>\<open>bytes.EqualFold\<close>. For the ASCII field names of this program that is: ASCII
  letters regardless of case, U+017F (bytes C5 BF) for \<open>s\<close> and U+212A (bytes E2 84 AA)
  for \<open>k\<close>. \<open>foldName\<close> normalises a member name accordingly.
\<close>

definition lower :: "char \<Rightarrow> char" where
  "lower c =
     (if (of_char (CHR ''A'') :: nat) \<le> of_char c \<and> (of_char c :: nat) \<le> of_char (CHR ''Z'')
      then char_of ((of_char c :: nat) + 32) else c)"

fun foldName :: "string \<Rightarrow> string" where
  "foldName [] = []"
| "foldName (c # cs) =
     (if c = CHR 0xC5 \<and> take 1 cs = [CHR 0xBF] then CHR ''s'' # foldName (drop 1 cs)
      else if c = CHR 0xE2 \<and> take 2 cs = [CHR 0x84, CHR 0xAA] then CHR ''k'' # foldName (drop 2 cs)
      else lower c # foldName cs)"

text \<open>
  Every decoder below takes the JSON value and the current content of the Go variable, and
  returns whether an \<^verbatim>\<open>UnmarshalTypeError\<close> was recorded together with the new content.
  \<^verbatim>\<open>Unmarshal\<close> does not stop at such an error: it skips the offending value, goes on, and
  returns the error at the end. JSON \<^verbatim>\<open>null\<close> leaves a string, an int and a struct as they are.
\<close>

fun store_string :: "json \<Rightarrow> string \<Rightarrow> bool \<times> string" where
  "store_string (JStr s) old = (False, s)"
| "store_string JNull old = (False, old)"
| "store_string _ old = (True, old)"

fun store_int :: "json \<Rightarrow> int \<Rightarrow> bool \<times> int" where
  "store_int (JInt i) old =
     (if - (2 ^ 63) \<le> i \<and> i < 2 ^ 63 then (False, i) else (True, old))"
| "store_int JNull old = (False, old)"
| "store_int _ old = (True, old)"

definition member_MessageIn :: "bool \<times> MessageIn \<Rightarrow> string \<times> json \<Rightarrow> bool \<times> MessageIn" where
  "member_MessageIn acc kv =
     (let (err, m) = acc; (k, v) = kv in
      if foldName k = ''role'' then
        (let (e, r) = store_string v (Role m) in (err \<or> e, m\<lparr>Role := r\<rparr>))
      else if foldName k = ''content'' then
        (let (e, c) = store_string v (Content m) in (err \<or> e, m\<lparr>Content := c\<rparr>))
      else if foldName k = ''file'' then
        (let (e, f) = store_string v (File m) in (err \<or> e, m\<lparr>File := f\<rparr>))
      else (err, m))"

fun decode_MessageIn :: "json \<Rightarrow> MessageIn \<Rightarrow> bool \<times> MessageIn" where
  "decode_MessageIn (JObj kvs) m = foldl member_MessageIn (False, m) kvs"
| "decode_MessageIn JNull m = (False, m)"
| "decode_MessageIn _ m = (True, m)"

definition zero_MessageIn :: MessageIn where
  "zero_MessageIn = \<lparr>Role = [], Content = [], File = []\<rparr>"

text \<open>\<^verbatim>\<open>json.Unmarshal(inputData, &messagesIn)\<close> (line 222) with \<^verbatim>\<open>messagesIn\<close> a nil slice: every
  element is decoded into a zero \<^verbatim>\<open>MessageIn\<close>; \<^verbatim>\<open>null\<close> leaves the slice nil and is no error.\<close>

fun decode_MessagesIn :: "wire \<Rightarrow> bool \<times> MessageIn list" where
  "decode_MessagesIn Unparsable = (True, [])"
| "decode_MessagesIn (JSONText (JArr es)) =
     (let rs = map (\<lambda>e. decode_MessageIn e zero_MessageIn) es
      in (list_ex fst rs, map snd rs))"
| "decode_MessagesIn (JSONText JNull) = (False, [])"
| "decode_MessagesIn (JSONText _) = (True, [])"

definition Unmarshal_MessagesIn :: "string \<Rightarrow> bool \<times> MessageIn list" where
  "Unmarshal_MessagesIn inputData = decode_MessagesIn (scan inputData)"

section \<open>Conversation loader (main.go, lines 227-247)\<close>

text \<open>What opening and reading a file gives: \<^verbatim>\<open>os.Open\<close> fails, \<^verbatim>\<open>io.ReadAll\<close> fails, or the
  bytes.\<close>

datatype 'a file_result = OpenError | ReadError | Contents 'a

datatype fatal =
    InputOpenFailed
  | InputReadFailed
  | InvalidJSONInput
  | PromptOpenFailed
  | PromptReadFailed
  | FirstInputFailed

text \<open>
  The loop \<^verbatim>\<open>for i, msg := range messagesIn\<close>. \<open>fs dir name\<close> is the file system's answer for the
  path \<^verbatim>\<open>path.Join(dir, name)\<close>. A failure is \<^verbatim>\<open>log.Fatalf\<close>, which ends the process.
\<close>

fun load_loop ::
  "(string \<Rightarrow> string \<Rightarrow> string file_result) \<Rightarrow> string \<Rightarrow> nat \<Rightarrow> MessageIn list \<Rightarrow> Message list
     \<Rightarrow> fatal + Message list" where
  "load_loop fs dir i [] messages = Inr messages"
| "load_loop fs dir i (msg # rest) messages =
     (let messages = messages @ [\<lparr>Role = Role msg, Content = Content msg\<rparr>] in
      if Role msg = SYSTEM \<and> File msg \<noteq> [] then
        (case fs dir (File msg) of
           OpenError \<Rightarrow> Inl PromptOpenFailed
         | ReadError \<Rightarrow> Inl PromptReadFailed
         | Contents systemMsgData \<Rightarrow>
             load_loop fs dir (Suc i) rest
               (messages[i := (messages ! i)\<lparr>Content := systemMsgData\<rparr>]))
      else load_loop fs dir (Suc i) rest messages)"

definition load_messages ::
  "(string \<Rightarrow> string \<Rightarrow> string file_result) \<Rightarrow> string \<Rightarrow> MessageIn list \<Rightarrow> fatal + Message list" where
  "load_messages fs dir messagesIn = load_loop fs dir 0 messagesIn []"

section \<open>Decoding the remote reply into the loop's \<^verbatim>\<open>responseBody\<close> (line 317)\<close>

definition member_Message :: "bool \<times> Message \<Rightarrow> string \<times> json \<Rightarrow> bool \<times> Message" where
  "member_Message acc kv =
     (let (err, m) = acc; (k, v) = kv in
      if foldName k = ''role'' then
        (let (e, r) = store_string v (Role m) in (err \<or> e, m\<lparr>Role := r\<rparr>))
      else if foldName k = ''content'' then
        (let (e, c) = store_string v (Content m) in (err \<or> e, m\<lparr>Content := c\<rparr>))
      else (err, m))"

fun decode_Message :: "json \<Rightarrow> Message \<Rightarrow> bool \<times> Message" where
  "decode_Message (JObj kvs) m = foldl member_Message (False, m) kvs"
| "decode_Message JNull m = (False, m)"
| "decode_Message _ m = (True, m)"

definition member_ResponseChoice ::
  "bool \<times> ResponseChoice \<Rightarrow> string \<times> json \<Rightarrow> bool \<times> ResponseChoice" where
  "member_ResponseChoice acc kv =
     (let (err, c) = acc; (k, v) = kv in
      if foldName k = ''message'' then
        (let (e, m) = decode_Message v (Message c) in (err \<or> e, c\<lparr>Message := m\<rparr>))
      else (err, c))"

fun decode_ResponseChoice :: "json \<Rightarrow> ResponseChoice \<Rightarrow> bool \<times> ResponseChoice" where
  "decode_ResponseChoice (JObj kvs) c = foldl member_ResponseChoice (False, c) kvs"
| "decode_ResponseChoice JNull c = (False, c)"
| "decode_ResponseChoice _ c = (True, c)"

definition member_Usage :: "bool \<times> Usage \<Rightarrow> string \<times> json \<Rightarrow> bool \<times> Usage" where
  "member_Usage acc kv =
     (let (err, u) = acc; (k, v) = kv in
      if foldName k = ''prompt_tokens'' then
        (let (e, n) = store_int v (PromptTokens u) in (err \<or> e, u\<lparr>PromptTokens := n\<rparr>))
      else if foldName k = ''completion_tokens'' then
        (let (e, n) = store_int v (CompletionTokens u) in (err \<or> e, u\<lparr>CompletionTokens := n\<rparr>))
      else (err, u))"

fun decode_Usage :: "json \<Rightarrow> Usage \<Rightarrow> bool \<times> Usage" where
  "decode_Usage (JObj kvs) u = foldl member_Usage (False, u) kvs"
| "decode_Usage JNull u = (False, u)"
| "decode_Usage _ u = (True, u)"

definition zero_ResponseChoice :: ResponseChoice where
  "zero_ResponseChoice = \<lparr>Message = \<lparr>Role = [], Content = []\<rparr>\<rparr>"

text \<open>
  A JSON array decoded into a slice that already has a backing array: element \<open>i\<close> is decoded
  into slot \<open>i\<close> of that array as it stands, and into a zero element once the array is used up.
  \<open>slots\<close> is the backing array: the slice's elements followed by the spare elements beyond
  its length.
\<close>

fun decode_slots :: "json list \<Rightarrow> ResponseChoice list \<Rightarrow> (bool \<times> ResponseChoice) list" where
  "decode_slots [] slots = []"
| "decode_slots (e # es) [] = decode_ResponseChoice e zero_ResponseChoice # decode_slots es []"
| "decode_slots (e # es) (s # slots) = decode_ResponseChoice e s # decode_slots es slots"

text \<open>The slice \<^verbatim>\<open>Choices\<close> with the spare part of its backing array. An empty array gives a new
  empty slice, \<^verbatim>\<open>null\<close> the nil slice; anything that is not an array is a type error and leaves
  the slice alone.\<close>

fun decode_Choices ::
  "json \<Rightarrow> ResponseChoice list \<times> ResponseChoice list
     \<Rightarrow> bool \<times> ResponseChoice list \<times> ResponseChoice list" where
  "decode_Choices (JArr es) (choices, spare) =
     (if es = [] then (False, [], [])
      else let rs = decode_slots es (choices @ spare)
           in (list_ex fst rs, map snd rs, drop (length es) (choices @ spare)))"
| "decode_Choices JNull (choices, spare) = (False, [], [])"
| "decode_Choices _ (choices, spare) = (True, choices, spare)"

definition member_ResponseBody ::
  "bool \<times> ResponseBody \<times> ResponseChoice list \<Rightarrow> string \<times> json
     \<Rightarrow> bool \<times> ResponseBody \<times> ResponseChoice list" where
  "member_ResponseBody acc kv =
     (let (err, rb, spare) = acc; (k, v) = kv in
      if foldName k = ''choices'' then
        (let (e, cs, spare') = decode_Choices v (Choices rb, spare)
         in (err \<or> e, rb\<lparr>Choices := cs\<rparr>, spare'))
      else if foldName k = ''usage'' then
        (let (e, u) = decode_Usage v (Usage rb) in (err \<or> e, rb\<lparr>Usage := u\<rparr>, spare))
      else (err, rb, spare))"

text \<open>
  \<^verbatim>\<open>json.Unmarshal(body, &responseBody)\<close>. The variable is declared once, before the loop
  (line 277), so each call decodes into what the previous calls left there: a member that the
  body does not have keeps its old value.
\<close>

fun decode_ResponseBody ::
  "wire \<Rightarrow> ResponseBody \<times> ResponseChoice list \<Rightarrow> bool \<times> ResponseBody \<times> ResponseChoice list" where
  "decode_ResponseBody Unparsable (rb, spare) = (True, rb, spare)"
| "decode_ResponseBody (JSONText (JObj kvs)) (rb, spare) =
     foldl member_ResponseBody (False, rb, spare) kvs"
| "decode_ResponseBody (JSONText JNull) (rb, spare) = (False, rb, spare)"
| "decode_ResponseBody (JSONText _) (rb, spare) = (True, rb, spare)"

definition Unmarshal_ResponseBody ::
  "string \<Rightarrow> ResponseBody \<times> ResponseChoice list \<Rightarrow> bool \<times> ResponseBody \<times> ResponseChoice list" where
  "Unmarshal_ResponseBody body var = decode_ResponseBody (scan body) var"

section \<open>The environment of a run\<close>

text \<open>One call of \<^verbatim>\<open>reader.ReadString('\n')\<close>: an error, or the bytes up to and including the
  first line feed.\<close>

datatype read_result = ReadFailed | ReadLine string

text \<open>
  What one pass through the request part of the loop (lines 280-321) meets:
  \<^verbatim>\<open>json.Marshal\<close> fails, \<^verbatim>\<open>http.NewRequest\<close> fails, \<^verbatim>\<open>client.Do\<close> fails (transport), or a response
  arrives with a status code and a body (\<open>None\<close> when reading the body fails).
\<close>

datatype http_outcome =
    MarshalFailed
  | NewRequestFailed
  | DoFailed
  | Responded nat "string option"

text \<open>
  Everything outside the process: the files, the lines that standard input will deliver (an
  exhausted list is end of file, which is a read error), the outcomes of the successive
  remote calls, whether \<^verbatim>\<open>os.MkdirAll\<close> succeeds, how \<^verbatim>\<open>os.WriteFile\<close> ends, and the formatted time.

  \<^verbatim>\<open>os.WriteFile\<close> opens the file with \<^verbatim>\<open>O_WRONLY|O_CREATE|O_TRUNC\<close>, writes the data and closes the
  file. Either the open fails and the call has made no file; or the file has been created or
  truncated and the write or the close fails, with a leading part of the data in the file
  (none of it, some of it, or all of it); or everything succeeds.
\<close>

datatype write_outcome = WriteDone | OpenFileFailed | WriteStopped nat

record Env =
  input_file :: "string \<Rightarrow> string \<Rightarrow> string file_result"
  prompt_file :: "string \<Rightarrow> string \<Rightarrow> string file_result"
  stdin :: "read_result list"
  remote :: "http_outcome list"
  mkdirall_ok :: bool
  writefile :: write_outcome
  now :: string

section \<open>Transcript logger (main.go, lines 79-98)\<close>

datatype save_error = MkdirFailed | WriteFailed

text \<open>A path is kept as the list of elements handed to \<^verbatim>\<open>path.Join\<close>. The result is the error
  returned together with the file that the failed call has left behind, if any, or for the
  \<^verbatim>\<open>nil\<close> error the file that now exists; a file is its path and its bytes. \<^verbatim>\<open>json.MarshalIndent\<close>
  has no error on a slice of structs of strings, so the branch of lines 88-90 is never taken.\<close>

definition saveConversationLog ::
  "Env \<Rightarrow> Message list \<Rightarrow> string \<Rightarrow> string
     \<Rightarrow> (save_error \<times> (string list \<times> string) option) + (string list \<times> string)" where
  "saveConversationLog env messages model logsDir =
     (let logDir = [logsDir, map (\<lambda>c. if c = CHR ''/'' then CHR ''_'' else c) model] in
      if \<not> mkdirall_ok env then Inl (MkdirFailed, None)
      else
        let timestamp = now env;
            fileName = logDir @ [timestamp @ ''.log.json''];
            fileContent = MarshalIndent_Messages messages
        in case writefile env of
             OpenFileFailed \<Rightarrow> Inl (WriteFailed, None)
           | WriteStopped n \<Rightarrow> Inl (WriteFailed, Some (fileName, take n fileContent))
           | WriteDone \<Rightarrow> Inr (fileName, fileContent))"

section \<open>Interactive input (main.go, lines 100-111)\<close>

definition HasSuffix :: "string \<Rightarrow> string \<Rightarrow> bool" where
  "HasSuffix s sfx = (length sfx \<le> length s \<and> drop (length s - length sfx) s = sfx)"

definition TrimSuffix :: "string \<Rightarrow> string \<Rightarrow> string" where
  "TrimSuffix s sfx = (if HasSuffix s sfx then take (length s - length sfx) s else s)"

text \<open>\<^verbatim>\<open>readUserInput\<close> on a reader: the input (\<open>None\<close> for the error) and the reader afterwards.\<close>

fun readUserInput :: "read_result list \<Rightarrow> string option \<times> read_result list" where
  "readUserInput [] = (None, [])"
| "readUserInput (ReadFailed # rest) = (None, rest)"
| "readUserInput (ReadLine userInput # rest) =
     (let userInput = TrimSuffix userInput [CHR 0x0A];
          userInput = TrimSuffix userInput [CHR 0x0D, CHR 0x0A]
      in (Some userInput, rest))"

section \<open>Start-up banner (main.go, lines 113-156)\<close>

datatype event =
    InitScreen nat nat nat
  | Prompt
  | RemoteCall string "Message list"
  | Saved "string list" string
  | SaveFailed save_error "(string list \<times> string) option"

text \<open>The counting loop of \<^verbatim>\<open>displayInitScreen\<close>; the counters are in the order in which the
  banner prints them: system, user, assistant.\<close>

fun count_roles :: "Message list \<Rightarrow> nat \<times> nat \<times> nat \<Rightarrow> nat \<times> nat \<times> nat" where
  "count_roles [] counts = counts"
| "count_roles (msg # rest) (systemMsgsCount, userMsgsCount, assistantMsgsCount) =
     (if Role msg = USER then count_roles rest (systemMsgsCount, Suc userMsgsCount, assistantMsgsCount)
      else if Role msg = ASSISTANT then
        count_roles rest (systemMsgsCount, userMsgsCount, Suc assistantMsgsCount)
      else if Role msg = SYSTEM then
        count_roles rest (Suc systemMsgsCount, userMsgsCount, assistantMsgsCount)
      else count_roles rest (systemMsgsCount, userMsgsCount, assistantMsgsCount))"

definition displayInitScreen :: "Message list \<Rightarrow> event" where
  "displayInitScreen messages =
     (case count_roles messages (0, 0, 0) of
        (systemMsgsCount, userMsgsCount, assistantMsgsCount) \<Rightarrow>
          InitScreen systemMsgsCount userMsgsCount assistantMsgsCount)"

section \<open>The session (main.go, lines 249-356)\<close>

text \<open>
  A run is observed through its events: the banner, each prompt (\<^verbatim>\<open>readUserInput\<close> called),
  each pass through the request part of the loop with the model name and the messages put
  into the payload, and the transcript written, or the error logged in its place together
  with the file that the failed attempt has left behind, if any.
\<close>

record loop_state =
  messages :: "Message list"
  responseBody :: ResponseBody
  spare :: "ResponseChoice list"
  reader :: "read_result list"

datatype step = Next loop_state | Return

datatype outcome = Exit | Fatal fatal | Waiting loop_state

text \<open>The block that follows a successful read, at the first prompt (lines 260-269) and in the
  loop (lines 346-355): the events, and the extended conversation unless the process returns.\<close>

definition quit_or_append ::
  "Config \<Rightarrow> Env \<Rightarrow> Message list \<Rightarrow> string \<Rightarrow> event list \<times> Message list option" where
  "quit_or_append cfg env msgs userInput =
     (if userInput = ''/quit!'' then ([], None)
      else if userInput = ''/quit'' then
        (case saveConversationLog env msgs (Model cfg) (LogsDir cfg) of
           Inl (err, left) \<Rightarrow> ([SaveFailed err left], None)
         | Inr (fileName, fileContent) \<Rightarrow> ([Saved fileName fileContent], None))
      else ([], Some (msgs @ [\<lparr>Role = USER, Content = userInput\<rparr>])))"

text \<open>One pass through the body of \<^verbatim>\<open>for { ... }\<close> after the payload is set, for a given outcome of
  the remote call. Every \<^verbatim>\<open>continue\<close> is \<open>Next\<close>, every \<^verbatim>\<open>return\<close> is \<open>Return\<close>.\<close>

definition iteration :: "Config \<Rightarrow> Env \<Rightarrow> http_outcome \<Rightarrow> loop_state \<Rightarrow> event list \<times> step" where
  "iteration cfg env r st =
     (case r of
        MarshalFailed \<Rightarrow> ([], Next st)
      | NewRequestFailed \<Rightarrow> ([], Next st)
      | DoFailed \<Rightarrow> ([], Next st)
      | Responded StatusCode body \<Rightarrow>
          if StatusCode \<noteq> 200 then ([], Next st)
          else
            (case body of
               None \<Rightarrow> ([], Next st)
             | Some text \<Rightarrow>
                 (case Unmarshal_ResponseBody text (responseBody st, spare st) of
                    (err, rb, sp) \<Rightarrow>
                      if err then ([], Next (st\<lparr>responseBody := rb, spare := sp\<rparr>))
                      else
                        (let msgs =
                               (if length (Choices rb) > 0
                                then messages st @ [Message (Choices rb ! 0)]
                                else messages st)
                         in case readUserInput (reader st) of
                              (None, rest) \<Rightarrow>
                                ([Prompt],
                                 Next \<lparr>messages = msgs, responseBody = rb, spare = sp, reader = rest\<rparr>)
                            | (Some userInput, rest) \<Rightarrow>
                                (case quit_or_append cfg env msgs userInput of
                                   (evs, None) \<Rightarrow> (Prompt # evs, Return)
                                 | (evs, Some msgs') \<Rightarrow>
                                     (Prompt # evs,
                                      Next \<lparr>messages = msgs', responseBody = rb, spare = sp,
                                            reader = rest\<rparr>))))))"

text \<open>The loop, driven by the outcomes of the successive remote calls. When the list of
  outcomes is used up the run is cut with the request pending.\<close>

fun main_loop :: "Config \<Rightarrow> Env \<Rightarrow> loop_state \<Rightarrow> http_outcome list \<Rightarrow> event list \<times> outcome" where
  "main_loop cfg env st [] = ([RemoteCall (Model cfg) (messages st)], Waiting st)"
| "main_loop cfg env st (r # rs) =
     (case iteration cfg env r st of
        (evs, Return) \<Rightarrow> (RemoteCall (Model cfg) (messages st) # evs, Exit)
      | (evs, Next st') \<Rightarrow>
          (case main_loop cfg env st' rs of
             (evs', out) \<Rightarrow> (RemoteCall (Model cfg) (messages st) # evs @ evs', out)))"

definition zero_ResponseBody :: ResponseBody where
  "zero_ResponseBody = \<lparr>Choices = [], Usage = \<lparr>PromptTokens = 0, CompletionTokens = 0\<rparr>\<rparr>"

text \<open>\<^verbatim>\<open>main\<close> from the banner on (lines 249-356), for the loaded conversation.\<close>

definition session :: "Config \<Rightarrow> Env \<Rightarrow> Message list \<Rightarrow> event list \<times> outcome" where
  "session cfg env msgs =
     (let msgsCount = length msgs in
      if msgsCount = 0 \<or> Role (msgs ! (msgsCount - 1)) \<noteq> USER then
        (case readUserInput (stdin env) of
           (None, rest) \<Rightarrow> ([displayInitScreen msgs, Prompt], Fatal FirstInputFailed)
         | (Some userInput, rest) \<Rightarrow>
             (case quit_or_append cfg env msgs userInput of
                (evs, None) \<Rightarrow> (displayInitScreen msgs # Prompt # evs, Exit)
              | (evs, Some msgs') \<Rightarrow>
                  (case main_loop cfg env
                          \<lparr>messages = msgs', responseBody = zero_ResponseBody, spare = [],
                           reader = rest\<rparr> (remote env) of
                     (evs', out) \<Rightarrow> (displayInitScreen msgs # Prompt # evs @ evs', out))))
      else
        (case main_loop cfg env
                \<lparr>messages = msgs, responseBody = zero_ResponseBody, spare = [],
                 reader = stdin env\<rparr> (remote env) of
           (evs', out) \<Rightarrow> (displayInitScreen msgs # evs', out)))"

text \<open>\<^verbatim>\<open>main\<close> once \<^verbatim>\<open>loadConfig\<close> has returned the configuration (lines 209-356).\<close>

definition main :: "Config \<Rightarrow> Env \<Rightarrow> event list \<times> outcome" where
  "main cfg env =
     (case input_file env (InputDir cfg) (InputFile cfg) of
        OpenError \<Rightarrow> ([], Fatal InputOpenFailed)
      | ReadError \<Rightarrow> ([], Fatal InputReadFailed)
      | Contents inputData \<Rightarrow>
          (case Unmarshal_MessagesIn inputData of
             (err, messagesIn) \<Rightarrow>
               if err then ([], Fatal InvalidJSONInput)
               else
                 (case load_messages (prompt_file env) (PromptsDir cfg) messagesIn of
                    Inl e \<Rightarrow> ([], Fatal e)
                  | Inr msgs \<Rightarrow> session cfg env msgs)))"

section \<open>Descriptions that the properties compare the code with\<close>

text \<open>
  What a Go string is once it has been written as a JSON string and read back: ASCII bytes
  and well-formed UTF-8 sequences as they are, every other byte replaced by U+FFFD (the bytes
  EF BF BD).
\<close>

fun to_valid_utf8 :: "string \<Rightarrow> string" where
  "to_valid_utf8 [] = []"
| "to_valid_utf8 (c # cs) =
     (if (of_char c :: nat) < 0x80 then c # to_valid_utf8 cs
      else case rune_width c cs of
        None \<Rightarrow> CHR 0xEF # CHR 0xBF # CHR 0xBD # to_valid_utf8 cs
      | Some n \<Rightarrow> c # take (n - 1) cs @ to_valid_utf8 (drop (n - 1) cs))"

text \<open>\<^verbatim>\<open>utf8.ValidString\<close>: every byte is ASCII or starts a well-formed sequence.\<close>

fun ValidString :: "string \<Rightarrow> bool" where
  "ValidString [] = True"
| "ValidString (c # cs) =
     (if (of_char c :: nat) < 0x80 then ValidString cs
      else case rune_width c cs of
        None \<Rightarrow> False
      | Some n \<Rightarrow> ValidString (drop (n - 1) cs))"

text \<open>The JSON value of a transcript, and its tokens.\<close>

definition Marshal_Message :: "Message \<Rightarrow> json" where
  "Marshal_Message m =
     JObj [(''role'', JStr (to_valid_utf8 (Role m))), (''content'', JStr (to_valid_utf8 (Content m)))]"

definition Marshal_Messages :: "Message list \<Rightarrow> json" where
  "Marshal_Messages msgs = JArr (map Marshal_Message msgs)"

definition tokens_Message :: "Message \<Rightarrow> token list" where
  "tokens_Message m =
     [LBrace, Scalar (JStr ''role''), Colon, Scalar (JStr (to_valid_utf8 (Role m))), Comma,
      Scalar (JStr ''content''), Colon, Scalar (JStr (to_valid_utf8 (Content m))), RBrace]"

fun tokens_rest :: "Message list \<Rightarrow> token list" where
  "tokens_rest [] = [RBracket]"
| "tokens_rest (m # ms) = Comma # tokens_Message m @ tokens_rest ms"

text \<open>The loader in the words of its description: a record becomes a turn with the record's
  role and inline content, the content replaced by the prompt file's bytes when the role is
  \<open>system\<close> and a file is named. \<open>prompt_unavailable\<close> holds for a record whose prompt file
  cannot be opened or read.\<close>

definition loaded_turn :: "(string \<Rightarrow> string \<Rightarrow> string file_result) \<Rightarrow> string \<Rightarrow> MessageIn \<Rightarrow> Message" where
  "loaded_turn fs dir r =
     \<lparr>Role = Role r,
      Content =
        (if Role r = SYSTEM \<and> File r \<noteq> [] then
           (case fs dir (File r) of Contents systemMsgData \<Rightarrow> systemMsgData | _ \<Rightarrow> Content r)
         else Content r)\<rparr>"

definition prompt_unavailable :: "(string \<Rightarrow> string \<Rightarrow> string file_result) \<Rightarrow> string \<Rightarrow> MessageIn \<Rightarrow> bool" where
  "prompt_unavailable fs dir r =
     (Role r = SYSTEM \<and> File r \<noteq> [] \<and>
      (case fs dir (File r) of Contents systemMsgData \<Rightarrow> False | _ \<Rightarrow> True))"

text \<open>A remote call that did not yield a decoded reply: the request could not be built or
  sent, the body could not be read, the status is not 200, or the body does not decode into
  the response variable as it stands.\<close>

fun call_failed :: "http_outcome \<Rightarrow> ResponseBody \<times> ResponseChoice list \<Rightarrow> bool" where
  "call_failed MarshalFailed var = True"
| "call_failed NewRequestFailed var = True"
| "call_failed DoFailed var = True"
| "call_failed (Responded StatusCode None) var = True"
| "call_failed (Responded StatusCode (Some text)) var =
     (StatusCode \<noteq> 200 \<or> fst (Unmarshal_ResponseBody text var))"

text \<open>The conversation once a decoded reply has been processed (lines 323-337).\<close>

definition with_reply :: "ResponseBody \<Rightarrow> Message list \<Rightarrow> Message list" where
  "with_reply rb msgs = (if 0 < length (Choices rb) then msgs @ [Message (Choices rb ! 0)] else msgs)"

text \<open>What a run shows of \<^verbatim>\<open>saveConversationLog\<close>: the transcript file, or the logged error with
  what the attempt has left; and the files that the events of a run have put on the disk.\<close>

definition transcript_path :: "Config \<Rightarrow> Env \<Rightarrow> string list" where
  "transcript_path cfg env =
     [LogsDir cfg, map (\<lambda>c. if c = CHR ''/'' then CHR ''_'' else c) (Model cfg),
      now env @ ''.log.json'']"

definition save_events :: "Config \<Rightarrow> Env \<Rightarrow> Message list \<Rightarrow> event list" where
  "save_events cfg env msgs =
     (if \<not> mkdirall_ok env then [SaveFailed MkdirFailed None]
      else case writefile env of
        OpenFileFailed \<Rightarrow> [SaveFailed WriteFailed None]
      | WriteStopped n \<Rightarrow>
          [SaveFailed WriteFailed
             (Some (transcript_path cfg env, take n (MarshalIndent_Messages msgs)))]
      | WriteDone \<Rightarrow> [Saved (transcript_path cfg env) (MarshalIndent_Messages msgs)])"

fun files_left :: "event list \<Rightarrow> (string list \<times> string) list" where
  "files_left [] = []"
| "files_left (Saved fileName fileContent # evs) = (fileName, fileContent) # files_left evs"
| "files_left (SaveFailed err (Some file) # evs) = file # files_left evs"
| "files_left (_ # evs) = files_left evs"

text \<open>The message lists of the successive remote calls of a run.\<close>

fun payloads :: "event list \<Rightarrow> Message list list" where
  "payloads [] = []"
| "payloads (RemoteCall model msgs # evs) = msgs # payloads evs"
| "payloads (_ # evs) = payloads evs"

text \<open>The transcript read back through the program's own input path (lines 222-247).\<close>

definition reload ::
  "(string \<Rightarrow> string \<Rightarrow> string file_result) \<Rightarrow> string \<Rightarrow> Message list \<Rightarrow> fatal + Message list" where
  "reload fs dir msgs =
     (case Unmarshal_MessagesIn (MarshalIndent_Messages msgs) of
        (err, messagesIn) \<Rightarrow>
          if err then Inl InvalidJSONInput else load_messages fs dir messagesIn)"

text \<open>A turn as its JSON form holds it.\<close>

definition as_written :: "Message \<Rightarrow> Message" where
  "as_written m = \<lparr>Role = to_valid_utf8 (Role m), Content = to_valid_utf8 (Content m)\<rparr>"

text \<open>The input files that \<^verbatim>\<open>json.Unmarshal\<close> into \<^verbatim>\<open>[]MessageIn\<close> takes without error, described
  by their shape.\<close>

fun string_or_null :: "json \<Rightarrow> bool" where
  "string_or_null (JStr s) = True"
| "string_or_null JNull = True"
| "string_or_null _ = False"

definition known_member_ok :: "string \<times> json \<Rightarrow> bool" where
  "known_member_ok kv =
     (if foldName (fst kv) = ''role'' \<or> foldName (fst kv) = ''content'' \<or> foldName (fst kv) = ''file''
      then string_or_null (snd kv) else True)"

fun record_shaped :: "json \<Rightarrow> bool" where
  "record_shaped (JObj kvs) = list_all known_member_ok kvs"
| "record_shaped JNull = True"
| "record_shaped _ = False"

fun acceptable :: "wire \<Rightarrow> bool" where
  "acceptable Unparsable = False"
| "acceptable (JSONText (JArr es)) = list_all record_shaped es"
| "acceptable (JSONText JNull) = True"
| "acceptable (JSONText _) = False"

section \<open>Example runs\<close>

definition example_cfg :: Config where
  "example_cfg =
     \<lparr>Model = ''org/model'', InputFile = ''messages.json'', InputDir = ''input'',
      PromptsDir = ''prompts'', LogsDir = ''logs''\<rparr>"

definition example_env :: Env where
  "example_env =
     \<lparr>input_file = (\<lambda>d n. Contents ''[]''),
      prompt_file =
        (\<lambda>d n. if d = ''prompts'' \<and> n = ''system_prompt.md'' then Contents ''Be terse.''
               else OpenError),
      stdin = [], remote = [], mkdirall_ok = True, writefile = WriteDone,
      now = ''2025-01-01T00:00:00Z''\<rparr>"

definition example_input :: "MessageIn list" where
  "example_input =
     [\<lparr>Role = ''system'', Content = ''unused'', File = ''system_prompt.md''\<rparr>,
      \<lparr>Role = ''user'', Content = ''ping'', File = ''notes.md''\<rparr>]"

definition missing_prompt_input :: "MessageIn list" where
  "missing_prompt_input =
     [\<lparr>Role = ''user'', Content = ''ping'', File = []\<rparr>,
      \<lparr>Role = ''system'', Content = ''unused'', File = ''absent.md''\<rparr>]"

definition example_state :: loop_state where
  "example_state =
     \<lparr>messages = [\<lparr>Role = ''user'', Content = ''ping''\<rparr>], responseBody = zero_ResponseBody,
      spare = [], reader = []\<rparr>"

definition reply_hi :: string where
  "reply_hi =
     ''{\"choices\":[{\"message\":{\"role\":\"assistant\",\"content\":\"hi\"}}],'' @
     ''\"usage\":{\"prompt_tokens\":3,\"completion_tokens\":1}}''"

definition eof_env :: Env where
  "eof_env =
     example_env\<lparr>stdin := [ReadLine (''hello'' @ [CHR 0x0A])],
                  remote := [Responded 200 (Some reply_hi), Responded 200 (Some reply_hi)]\<rparr>"

definition quit_nodir_env :: Env where
  "quit_nodir_env = example_env\<lparr>stdin := [ReadLine (''/quit'' @ [CHR 0x0A])], mkdirall_ok := False\<rparr>"

definition quit_short_write_env :: Env where
  "quit_short_write_env =
     example_env\<lparr>stdin := [ReadLine (''/quit'' @ [CHR 0x0A])], writefile := WriteStopped 1\<rparr>"

definition reply_error :: string where
  "reply_error = ''{\"error\":{\"message\":\"overloaded\"}}''"

definition stale_env :: Env where
  "stale_env =
     example_env\<lparr>stdin := [ReadLine (''hello'' @ [CHR 0x0A]), ReadLine (''thanks'' @ [CHR 0x0A]),
                            ReadLine (''/quit'' @ [CHR 0x0A])],
                  remote := [Responded 200 (Some reply_hi), Responded 200 (Some reply_error)]\<rparr>"

definition crlf_env :: Env where
  "crlf_env = example_env\<lparr>stdin := [ReadLine (''/quit'' @ [CHR 0x0D, CHR 0x0A])]\<rparr>"

definition null_env :: Env where
  "null_env =
     example_env\<lparr>input_file := (\<lambda>d n. Contents ''null''),
                  stdin := [ReadLine (''/quit!'' @ [CHR 0x0A])]\<rparr>"

definition null_element_env :: Env where
  "null_element_env =
     example_env\<lparr>input_file := (\<lambda>d n. Contents ''[null]''),
                  stdin := [ReadLine (''/quit'' @ [CHR 0x0A])]\<rparr>"

definition null_member_env :: Env where
  "null_member_env =
     example_env\<lparr>input_file := (\<lambda>d n. Contents ''[{\"role\":null}]''),
                  stdin := [ReadLine (''/quit'' @ [CHR 0x0A])]\<rparr>"

definition upper_role_env :: Env where
  "upper_role_env = example_env\<lparr>input_file := (\<lambda>d n. Contents ''[{\"ROLE\":5}]'')\<rparr>"

definition latin1_conversation :: "Message list" where
  "latin1_conversation = [\<lparr>Role = ''user'', Content = ''caf'' @ [CHR 0xE9]\<rparr>]"

definition object_env :: Env where
  "object_env = example_env\<lparr>input_file := (\<lambda>d n. Contents ''{}'')\<rparr>"

definition quit_env :: Env where
  "quit_env = example_env\<lparr>stdin := [ReadLine (''/quit'' @ [CHR 0x0A])]\<rparr>"

definition quit_now_state :: loop_state where
  "quit_now_state = example_state\<lparr>reader := [ReadLine (''/quit!'' @ [CHR 0x0A])]\<rparr>"

definition hi_ResponseBody :: ResponseBody where
  "hi_ResponseBody =
     \<lparr>Choices = [\<lparr>Message = \<lparr>Role = ''assistant'', Content = ''hi''\<rparr>\<rparr>],
      Usage = \<lparr>PromptTokens = 3, CompletionTokens = 1\<rparr>\<rparr>"

definition tool_record :: MessageIn where
  "tool_record = \<lparr>Role = ''tool'', Content = ''42'', File = ''result.md''\<rparr>"

definition tool_env :: Env where
  "tool_env =
     example_env\<lparr>stdin := [ReadLine (''go on'' @ [CHR 0x0A])],
                  remote := [Responded 200 (Some reply_hi)]\<rparr>"

section \<open>Properties\<close>

subsection \<open>The transcript text and its value\<close>

lemma hexval_hex: "n < 16 \<Longrightarrow> hexval (hex n) = Some n"
proof -
  assume n: "n < 16"
  define digits where "digits = ''0123456789abcdef''"
  have "list_all (\<lambda>p. hexval (snd p) = Some (fst p)) (enumerate 0 digits)"
    unfolding digits_def by code_simp
  then have each: "\<forall>i < length digits. hexval (digits ! i) = Some i"
    by (simp add: list_all_length nth_enumerate_eq)
  have "length digits = 16"
    by (simp add: digits_def)
  with each n have "hexval (digits ! n) = Some n"
    by simp
  then show ?thesis
    by (simp add: hex_def digits_def)
qed

lemma prepend_Some [simp]: "prepend bs (Some (s, rest)) = Some (bs @ s, rest)"
  by (simp add: prepend_def)

lemma utf8_first_width:
  "utf8_first b = Some (sz, lo, hi) \<Longrightarrow> (sz = 2 \<or> sz = 3 \<or> sz = 4) \<and> 0x80 \<le> lo"
  by (auto simp: utf8_first_def split: if_splits)

lemma rune_width_Some:
  assumes "rune_width c cs = Some n"
  shows "2 \<le> n \<and> n \<le> 4 \<and> n - 1 \<le> length cs"
proof -
  from assms obtain sz lo hi where f: "utf8_first (of_char c) = Some (sz, lo, hi)"
    by (auto simp: rune_width_def split: option.splits)
  from utf8_first_width [OF f] assms f show ?thesis
    by (auto simp: rune_width_def Suc_le_eq split: if_splits)
qed

lemma rune_width_append:
  assumes "rune_width c cs = Some n"
  shows "rune_width c (take (n - 1) cs @ ys) = Some n"
proof -
  from assms obtain sz lo hi where f: "utf8_first (of_char c) = Some (sz, lo, hi)"
    by (auto simp: rune_width_def split: option.splits)
  from utf8_first_width [OF f] assms f show ?thesis
    by (auto simp: rune_width_def nth_append split: if_splits)
qed

lemma unquote_ascii_escape:
  assumes "(of_char b :: nat) < 0x80" "\<not> htmlSafe b"
    and ih: "unquote (appendString src @ CHR 0x22 # rest) = Some (to_valid_utf8 src, rest)"
  shows "unquote (appendString (b # src) @ CHR 0x22 # rest) = Some (to_valid_utf8 (b # src), rest)"
proof -
  consider "b = CHR 0x5C" | "b = CHR 0x22" | "b = CHR 0x08" | "b = CHR 0x0C" | "b = CHR 0x0A"
    | "b = CHR 0x0D" | "b = CHR 0x09"
    | "b \<noteq> CHR 0x5C" "b \<noteq> CHR 0x22" "b \<noteq> CHR 0x08" "b \<noteq> CHR 0x0C" "b \<noteq> CHR 0x0A"
      "b \<noteq> CHR 0x0D" "b \<noteq> CHR 0x09"
    by blast
  then show ?thesis
  proof cases
    case 8
    let ?n = "of_char b :: nat"
    have h: "hexval (hex (?n div 16)) = Some (?n div 16)" "hexval (hex (?n mod 16)) = Some (?n mod 16)"
      using assms(1) by (simp_all add: hexval_hex)
    have g: "getu4 (CHR 0x5C # CHR ''u'' # CHR ''0'' # CHR ''0'' # hex (?n div 16) # hex (?n mod 16) # xs)
        = Some ?n" for xs
      using h by (simp add: hexval_def)
    have e: "EncodeRune ?n = [b]"
      using assms(1) by (simp add: EncodeRune_def)
    have nsur: "\<not> (0xD800 \<le> ?n \<and> ?n < 0xE000)"
      using assms(1) by simp
    show ?thesis
      using assms 8 g e nsur ih by simp
  qed (use assms ih in \<open>simp_all add: simple_escape_def htmlSafe_def\<close>)
qed

lemma getu4_fffd:
  "getu4 (CHR 0x5C # CHR ''u'' # CHR ''f'' # CHR ''f'' # CHR ''f'' # CHR ''d'' # xs) = Some 0xFFFD"
  by (simp add: hexval_def)

lemma getu4_2028:
  "getu4 (CHR 0x5C # CHR ''u'' # CHR ''2'' # CHR ''0'' # CHR ''2'' # CHR ''8'' # xs) = Some 0x2028"
  "getu4 (CHR 0x5C # CHR ''u'' # CHR ''2'' # CHR ''0'' # CHR ''2'' # CHR ''9'' # xs) = Some 0x2029"
  by (simp_all add: hexval_def)

lemma EncodeRune_values:
  "EncodeRune 0xFFFD = [CHR 0xEF, CHR 0xBF, CHR 0xBD]"
  "EncodeRune 0x2028 = [CHR 0xE2, CHR 0x80, CHR 0xA8]"
  "EncodeRune 0x2029 = [CHR 0xE2, CHR 0x80, CHR 0xA9]"
  by (simp_all add: EncodeRune_def char_of_def bit_iff_odd_drop_bit)

lemma rune_width_E2:
  "rune_width (CHR 0xE2) cs = Some n \<Longrightarrow> n = 3"
  by (auto simp: rune_width_def utf8_first_def split: if_splits)

lemma unquote_appendString:
  "unquote (appendString s @ CHR 0x22 # rest) = Some (to_valid_utf8 s, rest)"
proof (induction s rule: to_valid_utf8.induct)
  case 1
  show ?case by simp
next
  case (2 c cs)
  show ?case
  proof (cases "(of_char c :: nat) < 0x80")
    case True
    note ih = "2.IH"(1) [OF True]
    show ?thesis
    proof (cases "htmlSafe c")
      case False
      from True False ih show ?thesis by (rule unquote_ascii_escape)
    next
      case safe: True
      then have "c \<noteq> CHR 0x22" "c \<noteq> CHR 0x5C" "\<not> (of_char c :: nat) < 0x20"
        by (auto simp: htmlSafe_def)
      with True safe ih show ?thesis by simp
    qed
  next
    case False
    show ?thesis
    proof (cases "rune_width c cs")
      case None
      note ih = "2.IH"(2) [OF False None]
      have "appendString (c # cs) =
          CHR 0x5C # CHR ''u'' # CHR ''f'' # CHR ''f'' # CHR ''f'' # CHR ''d'' # appendString cs"
        using False None by simp
      then show ?thesis
        using False None ih by (simp add: getu4_fffd EncodeRune_values del: getu4.simps)
    next
      case (Some n)
      note ih = "2.IH"(3) [OF False Some]
      from rune_width_Some [OF Some] have n: "2 \<le> n" "n - 1 \<le> length cs" by auto
      have tv: "to_valid_utf8 (c # cs) = c # take (n - 1) cs @ to_valid_utf8 (drop (n - 1) cs)"
        using False Some by simp
      consider (ls) "c = CHR 0xE2" "take 2 cs = [CHR 0x80, CHR 0xA8]"
        | (ps) "c = CHR 0xE2" "take 2 cs = [CHR 0x80, CHR 0xA9]"
        | (other) "\<not> (c = CHR 0xE2 \<and> take 2 cs = [CHR 0x80, CHR 0xA8])"
                  "\<not> (c = CHR 0xE2 \<and> take 2 cs = [CHR 0x80, CHR 0xA9])"
        by blast
      then show ?thesis
      proof cases
        case ls
        with Some have n3: "n = 3" using rune_width_E2 by blast
        have "appendString (c # cs) =
            CHR 0x5C # CHR ''u'' # CHR ''2'' # CHR ''0'' # CHR ''2'' # CHR ''8'' #
            appendString (drop 2 cs)"
          using False Some ls by simp
        then show ?thesis
          using ih n3 ls tv by (simp add: getu4_2028 EncodeRune_values del: getu4.simps)
      next
        case ps
        with Some have n3: "n = 3" using rune_width_E2 by blast
        have "appendString (c # cs) =
            CHR 0x5C # CHR ''u'' # CHR ''2'' # CHR ''0'' # CHR ''2'' # CHR ''9'' #
            appendString (drop 2 cs)"
          using False Some ps by simp
        then show ?thesis
          using ih n3 ps tv by (simp add: getu4_2028 EncodeRune_values del: getu4.simps)
      next
        case other
        have ap: "appendString (c # cs) = c # take (n - 1) cs @ appendString (drop (n - 1) cs)"
          using False Some other by simp
        have c22: "c \<noteq> CHR 0x22" "c \<noteq> CHR 0x5C" "\<not> (of_char c :: nat) < 0x20"
          using False by auto
        let ?tail = "appendString (drop (n - 1) cs) @ CHR 0x22 # rest"
        have rw: "rune_width c (take (n - 1) cs @ ?tail) = Some n"
          using Some by (rule rune_width_append)
        have len: "length (take (n - 1) cs) = n - 1"
          using n by simp
        have "unquote (c # take (n - 1) cs @ ?tail) =
            prepend (c # take (n - 1) (take (n - 1) cs @ ?tail))
              (unquote (drop (n - 1) (take (n - 1) cs @ ?tail)))"
          using False c22 rw by simp
        also have "\<dots> = prepend (c # take (n - 1) cs) (unquote ?tail)"
          using len by simp
        finally show ?thesis
          using ih ap tv by simp
      qed
    qed
  qed
qed

lemma emit_Some [simp]: "emit t (Some ts) = Some (t # ts)"
  by (simp add: emit_def)

lemma lex_quote:
  "lex (quote s @ rest) = emit (Scalar (JStr (to_valid_utf8 s))) (lex rest)"
  by (simp add: quote_def is_space_def unquote_appendString)

lemma lex_newline: "lex (newline @ rest) = lex rest"
  by (simp add: is_space_def newline_def)

lemma lex_indent_Message:
  "lex rest = Some ts \<Longrightarrow> lex (indent_Message m @ rest) = Some (tokens_Message m @ ts)"
proof -
  assume r: "lex rest = Some ts"
  have 1: "lex (''  }'' @ rest) = Some (RBrace # ts)"
    using r by (simp add: is_space_def)
  have 2: "lex (quote (Content m) @ newline @ ''  }'' @ rest) =
      Some (Scalar (JStr (to_valid_utf8 (Content m))) # RBrace # ts)"
    unfolding lex_quote lex_newline 1 by simp
  have 3: "lex (''    '' @ quote ''content'' @ '': '' @ quote (Content m) @ newline @ ''  }'' @ rest) =
      Some (Scalar (JStr ''content'') # Colon # Scalar (JStr (to_valid_utf8 (Content m))) # RBrace # ts)"
  proof -
    have "lex ('': '' @ quote (Content m) @ newline @ ''  }'' @ rest) =
        Some (Colon # Scalar (JStr (to_valid_utf8 (Content m))) # RBrace # ts)"
      using 2 by (simp add: is_space_def)
    then have "lex (quote ''content'' @ '': '' @ quote (Content m) @ newline @ ''  }'' @ rest) =
        Some (Scalar (JStr ''content'') # Colon # Scalar (JStr (to_valid_utf8 (Content m))) # RBrace # ts)"
      unfolding lex_quote by simp
    then show ?thesis by (simp add: is_space_def)
  qed
  let ?tail = "''    '' @ quote ''content'' @ '': '' @ quote (Content m) @ newline @ ''  }'' @ rest"
  have 4: "lex (quote (Role m) @ '','' @ newline @ ?tail) =
      Some (Scalar (JStr (to_valid_utf8 (Role m))) # Comma # Scalar (JStr ''content'') # Colon #
            Scalar (JStr (to_valid_utf8 (Content m))) # RBrace # ts)"
  proof -
    have "lex ('','' @ newline @ ?tail) =
        Some (Comma # Scalar (JStr ''content'') # Colon #
              Scalar (JStr (to_valid_utf8 (Content m))) # RBrace # ts)"
      using 3 by (simp add: is_space_def newline_def)
    then show ?thesis unfolding lex_quote by simp
  qed
  have 5: "lex (''    '' @ quote ''role'' @ '': '' @ quote (Role m) @ '','' @ newline @ ?tail) =
      Some (Scalar (JStr ''role'') # Colon # Scalar (JStr (to_valid_utf8 (Role m))) # Comma #
            Scalar (JStr ''content'') # Colon # Scalar (JStr (to_valid_utf8 (Content m))) #
            RBrace # ts)"
  proof -
    have "lex ('': '' @ quote (Role m) @ '','' @ newline @ ?tail) =
        Some (Colon # Scalar (JStr (to_valid_utf8 (Role m))) # Comma # Scalar (JStr ''content'') #
              Colon # Scalar (JStr (to_valid_utf8 (Content m))) # RBrace # ts)"
      using 4 by (simp add: is_space_def)
    then have "lex (quote ''role'' @ '': '' @ quote (Role m) @ '','' @ newline @ ?tail) =
        Some (Scalar (JStr ''role'') # Colon # Scalar (JStr (to_valid_utf8 (Role m))) # Comma #
              Scalar (JStr ''content'') # Colon # Scalar (JStr (to_valid_utf8 (Content m))) #
              RBrace # ts)"
      unfolding lex_quote by simp
    then show ?thesis by (simp add: is_space_def)
  qed
  have "indent_Message m @ rest =
      ''  {'' @ newline @ ''    '' @ quote ''role'' @ '': '' @ quote (Role m) @ '','' @ newline @ ?tail"
    by (simp add: indent_Message_def)
  then show ?thesis
    using 5 by (simp add: is_space_def newline_def tokens_Message_def)
qed

lemma lex_indent_rest: "lex (indent_rest ms) = Some (tokens_rest ms)"
proof (induction ms)
  case Nil
  show ?case by (simp add: newline_def is_space_def)
next
  case (Cons m ms)
  have "lex (indent_Message m @ indent_rest ms) = Some (tokens_Message m @ tokens_rest ms)"
    using Cons.IH by (rule lex_indent_Message)
  then show ?case by (simp add: newline_def is_space_def)
qed

lemma lex_MarshalIndent:
  "lex (MarshalIndent_Messages msgs) =
     Some (case msgs of [] \<Rightarrow> [LBracket, RBracket]
           | m # ms \<Rightarrow> LBracket # tokens_Message m @ tokens_rest ms)"
proof (cases msgs)
  case Nil
  then show ?thesis by (simp add: is_space_def)
next
  case (Cons m ms)
  have "lex (indent_Message m @ indent_rest ms) = Some (tokens_Message m @ tokens_rest ms)"
    using lex_indent_rest by (rule lex_indent_Message)
  with Cons show ?thesis by (simp add: newline_def is_space_def)
qed

lemma run_tokens_Message:
  "mode = WantValue \<or> mode = WantValueOrClose \<Longrightarrow>
   run (tokens_Message m @ ts) (mode, [InArr es]) =
     run ts (AfterValue, [InArr (es @ [Marshal_Message m])])"
  by (auto simp: tokens_Message_def open_value_def take_key_def close_object_def deliver_def
        maxNestingDepth_def Marshal_Message_def)

lemma run_tokens_rest:
  "run (tokens_rest ms) (AfterValue, [InArr es]) = Some (JArr (es @ map Marshal_Message ms))"
proof (induction ms arbitrary: es)
  case Nil
  show ?case by (simp add: close_array_def deliver_def)
next
  case (Cons m ms)
  have "run (tokens_rest (m # ms)) (AfterValue, [InArr es]) =
      run (tokens_Message m @ tokens_rest ms) (WantValue, [InArr es])"
    by simp
  also have "\<dots> = run (tokens_rest ms) (AfterValue, [InArr (es @ [Marshal_Message m])])"
    by (rule run_tokens_Message) simp
  finally show ?case using Cons.IH by simp
qed

lemma parse_MarshalIndent:
  "parse_json (MarshalIndent_Messages msgs) = Some (Marshal_Messages msgs)"
proof (cases msgs)
  case Nil
  then show ?thesis
    by (simp add: parse_json_def lex_MarshalIndent open_value_def close_array_def deliver_def
          maxNestingDepth_def Marshal_Messages_def del: MarshalIndent_Messages.simps)
next
  case (Cons m ms)
  have "run (LBracket # tokens_Message m @ tokens_rest ms) (WantValue, []) =
      run (tokens_Message m @ tokens_rest ms) (WantValueOrClose, [InArr []])"
    by (simp add: open_value_def maxNestingDepth_def)
  also have "\<dots> = run (tokens_rest ms) (AfterValue, [InArr ([] @ [Marshal_Message m])])"
    by (rule run_tokens_Message) simp
  also have "\<dots> = Some (JArr (map Marshal_Message (m # ms)))"
    by (simp add: run_tokens_rest)
  finally show ?thesis
    using Cons
    by (simp add: parse_json_def lex_MarshalIndent Marshal_Messages_def
          del: MarshalIndent_Messages.simps)
qed

lemma scan_MarshalIndent: "scan (MarshalIndent_Messages msgs) = JSONText (Marshal_Messages msgs)"
  by (simp add: scan_def parse_MarshalIndent del: MarshalIndent_Messages.simps)

lemmas parse_defs =
  scan_def parse_json_def is_space_def is_digit_def scan_number_def scan_frac_def scan_exp_def
  digits_value_def simple_escape_def open_value_def close_array_def close_object_def
  take_key_def deliver_def maxNestingDepth_def Let_def

lemma scan_examples:
  "scan ''[]'' = JSONText (JArr [])"
  "scan ''null'' = JSONText JNull"
  "scan ''{}'' = JSONText (JObj [])"
  "scan ''Service Unavailable'' = Unparsable"
  "scan ''<html>Bad Gateway</html>'' = Unparsable"
  "scan ''[null]'' = JSONText (JArr [JNull])"
  "scan ''[{\"role\":null}]'' = JSONText (JArr [JObj [(''role'', JNull)]])"
  "scan ''[{\"ROLE\":5}]'' = JSONText (JArr [JObj [(''ROLE'', JInt 5)]])"
  by (simp_all add: parse_defs)

lemma scan_reply_hi:
  "scan reply_hi =
     JSONText (JObj
       [(''choices'', JArr [JObj [(''message'',
            JObj [(''role'', JStr ''assistant''), (''content'', JStr ''hi'')])]]),
        (''usage'', JObj [(''prompt_tokens'', JInt 3), (''completion_tokens'', JInt 1)])])"
  by (simp add: reply_hi_def parse_defs)

lemma scan_reply_error:
  "scan reply_error = JSONText (JObj [(''error'', JObj [(''message'', JStr ''overloaded'')])])"
  by (simp add: reply_error_def parse_defs)

subsection \<open>The loader\<close>

lemma load_loop_step:
  "i = length acc \<Longrightarrow> \<not> prompt_unavailable fs dir r \<Longrightarrow>
   load_loop fs dir i (r # rest) acc = load_loop fs dir (Suc i) rest (acc @ [loaded_turn fs dir r])"
  by (cases "fs dir (File r)") (auto simp: Let_def prompt_unavailable_def loaded_turn_def)

lemma load_loop_stop:
  "prompt_unavailable fs dir r \<Longrightarrow>
   load_loop fs dir i (r # rest) acc = Inl PromptOpenFailed \<or>
   load_loop fs dir i (r # rest) acc = Inl PromptReadFailed"
  by (cases "fs dir (File r)") (auto simp: Let_def prompt_unavailable_def)

lemma load_loop_ok:
  "i = length acc \<Longrightarrow> \<not> list_ex (prompt_unavailable fs dir) ins \<Longrightarrow>
   load_loop fs dir i ins acc = Inr (acc @ map (loaded_turn fs dir) ins)"
proof (induction ins arbitrary: i acc)
  case Nil
  then show ?case by simp
next
  case (Cons r rest)
  then have "load_loop fs dir i (r # rest) acc =
      load_loop fs dir (Suc i) rest (acc @ [loaded_turn fs dir r])"
    by (intro load_loop_step) auto
  also have "\<dots> = Inr ((acc @ [loaded_turn fs dir r]) @ map (loaded_turn fs dir) rest)"
    using Cons.prems by (intro Cons.IH) auto
  finally show ?case by simp
qed

lemma load_loop_fatal:
  "i = length acc \<Longrightarrow> list_ex (prompt_unavailable fs dir) ins \<Longrightarrow>
   load_loop fs dir i ins acc = Inl PromptOpenFailed \<or>
   load_loop fs dir i ins acc = Inl PromptReadFailed"
proof (induction ins arbitrary: i acc)
  case Nil
  then show ?case by simp
next
  case (Cons r rest)
  show ?case
  proof (cases "prompt_unavailable fs dir r")
    case True
    then show ?thesis by (rule load_loop_stop)
  next
    case False
    then have "load_loop fs dir i (r # rest) acc =
        load_loop fs dir (Suc i) rest (acc @ [loaded_turn fs dir r])"
      using Cons.prems by (intro load_loop_step) auto
    moreover have "list_ex (prompt_unavailable fs dir) rest"
      using Cons.prems False by simp
    moreover have "Suc i = length (acc @ [loaded_turn fs dir r])"
      using Cons.prems by simp
    ultimately show ?thesis
      using Cons.IH [of "Suc i" "acc @ [loaded_turn fs dir r]"] by presburger
  qed
qed

lemma prompt_unavailable_iff:
  "prompt_unavailable fs dir r \<longleftrightarrow>
     Role r = SYSTEM \<and> File r \<noteq> [] \<and> (\<forall>d. fs dir (File r) \<noteq> Contents d)"
  by (cases "fs dir (File r)") (auto simp: prompt_unavailable_def)

lemma load_messages_Inr:
  assumes "load_messages fs dir ins = Inr ms"
  shows "ms = map (loaded_turn fs dir) ins"
proof (cases "list_ex (prompt_unavailable fs dir) ins")
  case True
  then have "load_loop fs dir 0 ins [] = Inl PromptOpenFailed \<or>
      load_loop fs dir 0 ins [] = Inl PromptReadFailed"
    by (intro load_loop_fatal) auto
  with assms show ?thesis by (auto simp: load_messages_def)
next
  case False
  then have "load_loop fs dir 0 ins [] = Inr ([] @ map (loaded_turn fs dir) ins)"
    by (intro load_loop_ok) auto
  with assms show ?thesis by (simp add: load_messages_def)
qed

lemma load_messages_Inl:
  "load_messages fs dir ins = Inl e \<Longrightarrow> e = PromptOpenFailed \<or> e = PromptReadFailed"
proof (cases "list_ex (prompt_unavailable fs dir) ins")
  case True
  then have "load_loop fs dir 0 ins [] = Inl PromptOpenFailed \<or>
      load_loop fs dir 0 ins [] = Inl PromptReadFailed"
    by (intro load_loop_fatal) auto
  moreover assume "load_messages fs dir ins = Inl e"
  ultimately show ?thesis by (auto simp: load_messages_def)
next
  case False
  then have "load_loop fs dir 0 ins [] = Inr ([] @ map (loaded_turn fs dir) ins)"
    by (intro load_loop_ok) auto
  moreover assume "load_messages fs dir ins = Inl e"
  ultimately show ?thesis by (simp add: load_messages_def)
qed

text \<open>
  C4. For every input array the loader either ends the process (exactly when some record has
  role \<open>system\<close>, names a file, and that file cannot be opened or read; \<open>main\<close> then has
  produced no event) or yields a conversation of the same length in which turn \<open>i\<close> has the
  role of record \<open>i\<close> and its inline content, except that for a \<open>system\<close> record naming a file
  the content is the whole content of that file under the prompts directory.
\<close>

theorem loader_spec:
  "(if \<exists>i<length ins. Role (ins ! i) = SYSTEM \<and> File (ins ! i) \<noteq> [] \<and>
                          (\<forall>d. prompt_file env (PromptsDir cfg) (File (ins ! i)) \<noteq> Contents d)
    then (load_messages (prompt_file env) (PromptsDir cfg) ins = Inl PromptOpenFailed \<or>
          load_messages (prompt_file env) (PromptsDir cfg) ins = Inl PromptReadFailed) \<and>
         (\<forall>w. input_file env (InputDir cfg) (InputFile cfg) = Contents w \<and>
               Unmarshal_MessagesIn w = (False, ins) \<longrightarrow>
               fst (main cfg env) = [] \<and>
               (snd (main cfg env) = Fatal PromptOpenFailed \<or> snd (main cfg env) = Fatal PromptReadFailed))
    else \<exists>ms. load_messages (prompt_file env) (PromptsDir cfg) ins = Inr ms \<and>
         length ms = length ins \<and>
         (\<forall>i<length ins. Role (ms ! i) = Role (ins ! i) \<and>
            (if Role (ins ! i) = SYSTEM \<and> File (ins ! i) \<noteq> []
             then prompt_file env (PromptsDir cfg) (File (ins ! i)) = Contents (Content (ms ! i))
             else Content (ms ! i) = Content (ins ! i))))"
proof -
  let ?fs = "prompt_file env" and ?dir = "PromptsDir cfg"
  let ?bad = "\<exists>i<length ins. Role (ins ! i) = SYSTEM \<and> File (ins ! i) \<noteq> [] \<and>
                          (\<forall>d. ?fs ?dir (File (ins ! i)) \<noteq> Contents d)"
  have ex: "list_ex (prompt_unavailable ?fs ?dir) ins \<longleftrightarrow> ?bad"
    unfolding list_ex_iff prompt_unavailable_iff
    by (metis in_set_conv_nth)
  show ?thesis
  proof (cases ?bad)
    case True
    then have "list_ex (prompt_unavailable ?fs ?dir) ins"
      using ex by simp
    then have bad: "load_messages ?fs ?dir ins = Inl PromptOpenFailed \<or>
        load_messages ?fs ?dir ins = Inl PromptReadFailed"
      unfolding load_messages_def by (intro load_loop_fatal) auto
    then have "\<forall>w. input_file env (InputDir cfg) (InputFile cfg) = Contents w \<and>
               Unmarshal_MessagesIn w = (False, ins) \<longrightarrow>
               fst (main cfg env) = [] \<and>
               (snd (main cfg env) = Fatal PromptOpenFailed \<or> snd (main cfg env) = Fatal PromptReadFailed)"
      by (auto simp: main_def)
    with bad show ?thesis
      unfolding if_P [OF True] by (rule conjI)
  next
    case False
    then have none: "\<not> list_ex (prompt_unavailable ?fs ?dir) ins"
      using ex by simp
    then have ok: "load_messages ?fs ?dir ins = Inr (map (loaded_turn ?fs ?dir) ins)"
      unfolding load_messages_def using load_loop_ok [of 0 "[]" ?fs ?dir ins] by simp
    have each: "\<forall>i<length ins. Role (map (loaded_turn ?fs ?dir) ins ! i) = Role (ins ! i) \<and>
            (if Role (ins ! i) = SYSTEM \<and> File (ins ! i) \<noteq> []
             then ?fs ?dir (File (ins ! i)) = Contents (Content (map (loaded_turn ?fs ?dir) ins ! i))
             else Content (map (loaded_turn ?fs ?dir) ins ! i) = Content (ins ! i))"
    proof (intro allI impI)
      fix i assume i: "i < length ins"
      then have "ins ! i \<in> set ins" by simp
      then have "\<not> prompt_unavailable ?fs ?dir (ins ! i)"
        using none by (auto simp: list_ex_iff)
      then show "Role (map (loaded_turn ?fs ?dir) ins ! i) = Role (ins ! i) \<and>
            (if Role (ins ! i) = SYSTEM \<and> File (ins ! i) \<noteq> []
             then ?fs ?dir (File (ins ! i)) = Contents (Content (map (loaded_turn ?fs ?dir) ins ! i))
             else Content (map (loaded_turn ?fs ?dir) ins ! i) = Content (ins ! i))"
        using i by (auto simp: loaded_turn_def prompt_unavailable_def split: file_result.splits)
    qed
    show ?thesis
      unfolding if_not_P [OF False]
      by (intro exI [of _ "map (loaded_turn ?fs ?dir) ins"] conjI ok each length_map)
  qed
qed

text \<open>The loader on a system record with a readable prompt file followed by a user record,
  and on an input whose system record names a file that is not there.\<close>

theorem loader_spec_witness:
  "(\<exists>ms. load_messages (prompt_file example_env) (PromptsDir example_cfg) example_input = Inr ms \<and>
         length ms = 2 \<and> Role (ms ! 0) = ''system'' \<and> Content (ms ! 0) = ''Be terse.'' \<and>
         Role (ms ! 1) = ''user'' \<and> Content (ms ! 1) = ''ping'') \<and>
   (load_messages (prompt_file example_env) (PromptsDir example_cfg) missing_prompt_input
      = Inl PromptOpenFailed \<or>
    load_messages (prompt_file example_env) (PromptsDir example_cfg) missing_prompt_input
      = Inl PromptReadFailed)"
proof
  have good: "\<not> (\<exists>i<length example_input.
      Role (example_input ! i) = SYSTEM \<and> File (example_input ! i) \<noteq> [] \<and>
      (\<forall>d. prompt_file example_env (PromptsDir example_cfg) (File (example_input ! i)) \<noteq> Contents d))"
    by (auto simp: example_input_def example_env_def example_cfg_def SYSTEM_def nth_Cons'
          split: if_splits)
  from loader_spec [of example_input example_env example_cfg]
  obtain ms where ms:
    "load_messages (prompt_file example_env) (PromptsDir example_cfg) example_input = Inr ms"
    "length ms = length example_input"
    "\<forall>i<length example_input. Role (ms ! i) = Role (example_input ! i) \<and>
       (if Role (example_input ! i) = SYSTEM \<and> File (example_input ! i) \<noteq> []
        then prompt_file example_env (PromptsDir example_cfg) (File (example_input ! i))
               = Contents (Content (ms ! i))
        else Content (ms ! i) = Content (example_input ! i))"
    unfolding if_not_P [OF good] by blast
  from spec [OF ms(3), of 0] have "Role (ms ! 0) = ''system'' \<and> Content (ms ! 0) = ''Be terse.''"
    by (simp add: example_input_def example_env_def example_cfg_def SYSTEM_def)
  moreover from spec [OF ms(3), of 1] have "Role (ms ! 1) = ''user'' \<and> Content (ms ! 1) = ''ping''"
    by (simp add: example_input_def example_env_def example_cfg_def SYSTEM_def)
  moreover have "length ms = 2"
    using ms(2) by (simp add: example_input_def)
  ultimately show "\<exists>ms. load_messages (prompt_file example_env) (PromptsDir example_cfg) example_input = Inr ms \<and>
         length ms = 2 \<and> Role (ms ! 0) = ''system'' \<and> Content (ms ! 0) = ''Be terse.'' \<and>
         Role (ms ! 1) = ''user'' \<and> Content (ms ! 1) = ''ping''"
    using ms(1) by blast
next
  have bad: "\<exists>i<length missing_prompt_input.
      Role (missing_prompt_input ! i) = SYSTEM \<and> File (missing_prompt_input ! i) \<noteq> [] \<and>
      (\<forall>d. prompt_file example_env (PromptsDir example_cfg) (File (missing_prompt_input ! i)) \<noteq> Contents d)"
    by (intro exI [of _ 1])
       (simp add: missing_prompt_input_def example_env_def example_cfg_def SYSTEM_def)
  from loader_spec [of missing_prompt_input example_env example_cfg]
  show "load_messages (prompt_file example_env) (PromptsDir example_cfg) missing_prompt_input
      = Inl PromptOpenFailed \<or>
    load_messages (prompt_file example_env) (PromptsDir example_cfg) missing_prompt_input
      = Inl PromptReadFailed"
    unfolding if_P [OF bad] by blast
qed

subsection \<open>Reading a line\<close>

lemma TrimSuffix_line:
  "CHR 0x0A \<notin> set l \<Longrightarrow>
   TrimSuffix (TrimSuffix (l @ [CHR 0x0A]) [CHR 0x0A]) [CHR 0x0D, CHR 0x0A] = l"
proof -
  assume n: "CHR 0x0A \<notin> set l"
  have 1: "TrimSuffix (l @ [CHR 0x0A]) [CHR 0x0A] = l"
    by (simp add: TrimSuffix_def HasSuffix_def)
  have "\<not> HasSuffix l [CHR 0x0D, CHR 0x0A]"
  proof
    assume "HasSuffix l [CHR 0x0D, CHR 0x0A]"
    then have "drop (length l - length [CHR 0x0D, CHR 0x0A]) l = [CHR 0x0D, CHR 0x0A]"
      unfolding HasSuffix_def by blast
    then have "CHR 0x0A \<in> set (drop (length l - length [CHR 0x0D, CHR 0x0A]) l)" by simp
    then have "CHR 0x0A \<in> set l" by (rule in_set_dropD)
    with n show False by simp
  qed
  then show ?thesis unfolding 1 by (simp add: TrimSuffix_def)
qed

lemma readUserInput_line:
  "CHR 0x0A \<notin> set l \<Longrightarrow> readUserInput (ReadLine (l @ [CHR 0x0A]) # rest) = (Some l, rest)"
  using TrimSuffix_line [of l] by (simp add: Let_def)

lemmas run_defs =
  main_def session_def iteration_def quit_or_append_def saveConversationLog_def
  Unmarshal_MessagesIn_def Unmarshal_ResponseBody_def scan_examples scan_reply_hi scan_reply_error
  load_messages_def displayInitScreen_def example_env_def example_cfg_def
  zero_MessageIn_def zero_ResponseBody_def zero_ResponseChoice_def
  member_ResponseBody_def member_ResponseChoice_def member_Message_def member_Usage_def
  member_MessageIn_def lower_def TrimSuffix_def HasSuffix_def USER_def Let_def

text \<open>
  C5. A line ended by carriage return and line feed. \<^verbatim>\<open>readUserInput\<close> strips the line feed
  first; what is left ends in a carriage return, not in the two-byte suffix the second
  \<^verbatim>\<open>TrimSuffix\<close> looks for, so the carriage return stays in the input. For the line \<^verbatim>\<open>/quit\<close> the
  input is \<^verbatim>\<open>/quit\<close> followed by a carriage return. It equals neither quit command: the session
  appends it as a user turn and calls the remote.
\<close>

theorem crlf_quit_appended:
  "readUserInput (ReadLine (l @ [CHR 0x0D, CHR 0x0A]) # rest) = (Some (l @ [CHR 0x0D]), rest) \<and>
   readUserInput [ReadLine (''/quit'' @ [CHR 0x0D, CHR 0x0A])] = (Some (''/quit'' @ [CHR 0x0D]), []) \<and>
   main example_cfg crlf_env =
     ([InitScreen 0 0 0, Prompt,
       RemoteCall ''org/model'' [\<lparr>Role = ''user'', Content = ''/quit'' @ [CHR 0x0D]\<rparr>]],
      Waiting \<lparr>messages = [\<lparr>Role = ''user'', Content = ''/quit'' @ [CHR 0x0D]\<rparr>],
               responseBody = zero_ResponseBody, spare = [], reader = []\<rparr>)"
proof (intro conjI)
  have 1: "TrimSuffix (l @ [CHR 0x0D, CHR 0x0A]) [CHR 0x0A] = l @ [CHR 0x0D]"
    by (simp add: TrimSuffix_def HasSuffix_def)
  have 2: "TrimSuffix (l @ [CHR 0x0D]) [CHR 0x0D, CHR 0x0A] = l @ [CHR 0x0D]"
    by (auto simp: TrimSuffix_def HasSuffix_def)
  show "readUserInput (ReadLine (l @ [CHR 0x0D, CHR 0x0A]) # rest) = (Some (l @ [CHR 0x0D]), rest)"
    unfolding readUserInput.simps Let_def 1 2 ..
next
  show "readUserInput [ReadLine (''/quit'' @ [CHR 0x0D, CHR 0x0A])] =
      (Some (''/quit'' @ [CHR 0x0D]), [])"
    by (simp add: TrimSuffix_def HasSuffix_def)
next
  show "main example_cfg crlf_env =
     ([InitScreen 0 0 0, Prompt,
       RemoteCall ''org/model'' [\<lparr>Role = ''user'', Content = ''/quit'' @ [CHR 0x0D]\<rparr>]],
      Waiting \<lparr>messages = [\<lparr>Role = ''user'', Content = ''/quit'' @ [CHR 0x0D]\<rparr>],
               responseBody = zero_ResponseBody, spare = [], reader = []\<rparr>)"
    by (simp add: run_defs crlf_env_def)
qed

subsection \<open>One pass through the loop\<close>

lemma iteration_failed:
  "call_failed r (responseBody st, spare st) \<Longrightarrow>
   \<exists>rb sp. iteration cfg env r st = ([], Next (st\<lparr>responseBody := rb, spare := sp\<rparr>))"
proof (cases r)
  case (Responded code body)
  assume f: "call_failed r (responseBody st, spare st)"
  show ?thesis
  proof (cases "code = 200 \<and> body \<noteq> None")
    case False
    then have "iteration cfg env r st = ([], Next (st\<lparr>responseBody := responseBody st, spare := spare st\<rparr>))"
      using Responded by (auto simp: iteration_def)
    then show ?thesis by blast
  next
    case True
    then obtain t where b: "body = Some t" by auto
    obtain e rb sp where u: "Unmarshal_ResponseBody t (responseBody st, spare st) = (e, rb, sp)"
      by (cases "Unmarshal_ResponseBody t (responseBody st, spare st)") auto
    with f Responded b True have "e" by simp
    with u Responded b True
    have "iteration cfg env r st = ([], Next (st\<lparr>responseBody := rb, spare := sp\<rparr>))"
      by (simp add: iteration_def)
    then show ?thesis by blast
  qed
next
  case MarshalFailed
  then have "iteration cfg env r st = ([], Next (st\<lparr>responseBody := responseBody st, spare := spare st\<rparr>))"
    by (simp add: iteration_def)
  then show ?thesis by blast
next
  case NewRequestFailed
  then have "iteration cfg env r st = ([], Next (st\<lparr>responseBody := responseBody st, spare := spare st\<rparr>))"
    by (simp add: iteration_def)
  then show ?thesis by blast
next
  case DoFailed
  then have "iteration cfg env r st = ([], Next (st\<lparr>responseBody := responseBody st, spare := spare st\<rparr>))"
    by (simp add: iteration_def)
  then show ?thesis by blast
qed

lemma iteration_decoded:
  "Unmarshal_ResponseBody t (responseBody st, spare st) = (False, rb, sp) \<Longrightarrow>
   iteration cfg env (Responded 200 (Some t)) st =
     (case readUserInput (reader st) of
        (None, rest) \<Rightarrow>
          ([Prompt],
           Next \<lparr>messages = with_reply rb (messages st), responseBody = rb, spare = sp,
                 reader = rest\<rparr>)
      | (Some userInput, rest) \<Rightarrow>
          (case quit_or_append cfg env (with_reply rb (messages st)) userInput of
             (evs, None) \<Rightarrow> (Prompt # evs, Return)
           | (evs, Some msgs') \<Rightarrow>
               (Prompt # evs,
                Next \<lparr>messages = msgs', responseBody = rb, spare = sp, reader = rest\<rparr>)))"
  unfolding with_reply_def by (simp add: iteration_def Let_def)

lemma not_failed_decoded:
  assumes "\<not> call_failed r (responseBody st, spare st)"
  obtains t rb sp where "r = Responded 200 (Some t)"
    and "Unmarshal_ResponseBody t (responseBody st, spare st) = (False, rb, sp)"
proof (cases r)
  case (Responded code body)
  with assms obtain t where b: "body = Some t" by (cases body) auto
  with assms Responded have c: "code = 200"
    and e: "\<not> fst (Unmarshal_ResponseBody t (responseBody st, spare st))" by auto
  obtain rb sp where "Unmarshal_ResponseBody t (responseBody st, spare st) = (False, rb, sp)"
    using e by (cases "Unmarshal_ResponseBody t (responseBody st, spare st)") auto
  with that Responded b c show ?thesis by blast
qed (use assms in auto)

lemma main_loop_head:
  "\<exists>evs out. main_loop cfg env st rs = (RemoteCall (Model cfg) (messages st) # evs, out)"
proof (cases rs)
  case Nil
  then show ?thesis by simp
next
  case (Cons r rest)
  obtain evs s where it: "iteration cfg env r st = (evs, s)"
    by (cases "iteration cfg env r st") auto
  show ?thesis
  proof (cases s)
    case Return
    with it Cons show ?thesis by simp
  next
    case (Next st')
    with it Cons show ?thesis
      by (cases "main_loop cfg env st' rest") simp
  qed
qed

lemma main_loop_Next:
  "iteration cfg env r st = (evs, Next st') \<Longrightarrow>
   fst (main_loop cfg env st (r # rs)) =
     RemoteCall (Model cfg) (messages st) # evs @ fst (main_loop cfg env st' rs)"
  by (cases "main_loop cfg env st' rs") simp

lemma quit_or_append_quit:
  "quit_or_append cfg env msgs ''/quit'' = (save_events cfg env msgs, None)"
  by (simp add: quit_or_append_def saveConversationLog_def save_events_def transcript_path_def Let_def
        split: write_outcome.splits)

lemma quit_or_append_quit_now:
  "quit_or_append cfg env msgs ''/quit!'' = ([], None)"
  by (simp add: quit_or_append_def)

lemma quit_or_append_other:
  "l \<noteq> ''/quit!'' \<Longrightarrow> l \<noteq> ''/quit'' \<Longrightarrow>
   quit_or_append cfg env msgs l = ([], Some (msgs @ [\<lparr>Role = USER, Content = l\<rparr>]))"
  by (simp add: quit_or_append_def)

text \<open>
  C6. When a remote call fails (transport error, status other than 200, body unreadable or
  not decodable; also when the request cannot be built), the pass through the loop produces
  no event and continues with the same conversation and the same unread input; only the
  response variable may differ. The next event of the run is therefore a remote call with the
  identical conversation, with no prompt in between.
\<close>

theorem failed_call_retried:
  "call_failed r (responseBody st, spare st) \<Longrightarrow>
   (\<exists>rb sp. iteration cfg env r st = ([], Next (st\<lparr>responseBody := rb, spare := sp\<rparr>))) \<and>
   (\<exists>evs. fst (main_loop cfg env st (r # rs)) =
      RemoteCall (Model cfg) (messages st) # RemoteCall (Model cfg) (messages st) # evs)"
proof
  assume f: "call_failed r (responseBody st, spare st)"
  from iteration_failed [OF f] show
    "\<exists>rb sp. iteration cfg env r st = ([], Next (st\<lparr>responseBody := rb, spare := sp\<rparr>))" .
  then obtain rb sp where
    it: "iteration cfg env r st = ([], Next (st\<lparr>responseBody := rb, spare := sp\<rparr>))"
    by blast
  obtain evs out where
    "main_loop cfg env (st\<lparr>responseBody := rb, spare := sp\<rparr>) rs =
       (RemoteCall (Model cfg) (messages (st\<lparr>responseBody := rb, spare := sp\<rparr>)) # evs, out)"
    using main_loop_head by blast
  then have "fst (main_loop cfg env st (r # rs)) =
      RemoteCall (Model cfg) (messages st) # RemoteCall (Model cfg) (messages st) # evs"
    using main_loop_Next [OF it] by simp
  then show "\<exists>evs. fst (main_loop cfg env st (r # rs)) =
      RemoteCall (Model cfg) (messages st) # RemoteCall (Model cfg) (messages st) # evs"
    by blast
qed

text \<open>A transport error, a 503 and a 200 whose body is a JSON string instead of an object.\<close>

theorem failed_call_retried_witness:
  "(\<exists>evs. fst (main_loop example_cfg example_env example_state [DoFailed]) =
      RemoteCall ''org/model'' [\<lparr>Role = ''user'', Content = ''ping''\<rparr>] #
      RemoteCall ''org/model'' [\<lparr>Role = ''user'', Content = ''ping''\<rparr>] # evs) \<and>
   (\<exists>evs. fst (main_loop example_cfg example_env example_state [Responded 503 (Some ''Service Unavailable'')]) =
      RemoteCall ''org/model'' [\<lparr>Role = ''user'', Content = ''ping''\<rparr>] #
      RemoteCall ''org/model'' [\<lparr>Role = ''user'', Content = ''ping''\<rparr>] # evs) \<and>
   (\<exists>evs. fst (main_loop example_cfg example_env example_state
                  [Responded 200 (Some ''<html>Bad Gateway</html>'')]) =
      RemoteCall ''org/model'' [\<lparr>Role = ''user'', Content = ''ping''\<rparr>] #
      RemoteCall ''org/model'' [\<lparr>Role = ''user'', Content = ''ping''\<rparr>] # evs)"
  using failed_call_retried [of DoFailed example_state example_cfg example_env "[]"]
    failed_call_retried [of "Responded 503 (Some ''Service Unavailable'')" example_state example_cfg
      example_env "[]"]
    failed_call_retried [of "Responded 200 (Some ''<html>Bad Gateway</html>'')"
      example_state example_cfg example_env "[]"]
  by (simp add: example_state_def example_cfg_def Unmarshal_ResponseBody_def scan_examples)

text \<open>
  C2. Once the input has been loaded, \<^verbatim>\<open>main\<close> is the session on the loaded conversation. After
  the banner, the first event of a session is a prompt when the loaded conversation is empty
  or its last turn is not a user turn, and a remote call carrying exactly the loaded
  conversation when its last turn is a user turn.
\<close>

theorem initial_action:
  "(input_file env (InputDir cfg) (InputFile cfg) = Contents w \<and>
    Unmarshal_MessagesIn w = (False, ins) \<and>
    load_messages (prompt_file env) (PromptsDir cfg) ins = Inr msgs \<longrightarrow>
      main cfg env = session cfg env msgs) \<and>
   (msgs = [] \<or> Role (last msgs) \<noteq> USER \<longrightarrow>
      (\<exists>evs. fst (session cfg env msgs) = displayInitScreen msgs # Prompt # evs)) \<and>
   (msgs \<noteq> [] \<and> Role (last msgs) = USER \<longrightarrow>
      (\<exists>evs. fst (session cfg env msgs) =
         displayInitScreen msgs # RemoteCall (Model cfg) msgs # evs))"
proof (intro conjI impI)
  assume "input_file env (InputDir cfg) (InputFile cfg) = Contents w \<and>
    Unmarshal_MessagesIn w = (False, ins) \<and>
    load_messages (prompt_file env) (PromptsDir cfg) ins = Inr msgs"
  then show "main cfg env = session cfg env msgs"
    by (simp add: main_def)
next
  assume a: "msgs = [] \<or> Role (last msgs) \<noteq> USER"
  then have c: "length msgs = 0 \<or> Role (msgs ! (length msgs - 1)) \<noteq> USER"
    by (auto simp: last_conv_nth)
  obtain inp rest where rd: "readUserInput (stdin env) = (inp, rest)"
    by (cases "readUserInput (stdin env)") auto
  show "\<exists>evs. fst (session cfg env msgs) = displayInitScreen msgs # Prompt # evs"
  proof (cases inp)
    case None
    with c rd show ?thesis by (simp add: session_def Let_def)
  next
    case (Some userInput)
    obtain evs res where q: "quit_or_append cfg env msgs userInput = (evs, res)"
      by (cases "quit_or_append cfg env msgs userInput") auto
    show ?thesis
    proof (cases res)
      case None
      with c rd Some q show ?thesis by (simp add: session_def Let_def)
    next
      case (Some msgs')
      with c rd \<open>inp = Some userInput\<close> q show ?thesis
        by (simp add: session_def Let_def split: prod.splits)
    qed
  qed
next
  assume a: "msgs \<noteq> [] \<and> Role (last msgs) = USER"
  then have c: "\<not> (length msgs = 0 \<or> Role (msgs ! (length msgs - 1)) \<noteq> USER)"
    by (auto simp: last_conv_nth)
  obtain evs out where
    "main_loop cfg env
            \<lparr>messages = msgs, responseBody = zero_ResponseBody, spare = [], reader = stdin env\<rparr>
            (remote env) = (RemoteCall (Model cfg) msgs # evs, out)"
    using main_loop_head [of cfg env
        "\<lparr>messages = msgs, responseBody = zero_ResponseBody, spare = [], reader = stdin env\<rparr>"
        "remote env"] by auto
  with c show "\<exists>evs. fst (session cfg env msgs) =
         displayInitScreen msgs # RemoteCall (Model cfg) msgs # evs"
    by (simp add: session_def Let_def)
qed

text \<open>The empty input array, and a conversation that ends with a user turn.\<close>

theorem initial_action_witness:
  "main example_cfg example_env = session example_cfg example_env [] \<and>
   (\<exists>evs. fst (session example_cfg example_env []) = InitScreen 0 0 0 # Prompt # evs) \<and>
   (\<exists>evs. fst (session example_cfg example_env [\<lparr>Role = ''user'', Content = ''ping''\<rparr>]) =
      InitScreen 0 1 0 # RemoteCall ''org/model'' [\<lparr>Role = ''user'', Content = ''ping''\<rparr>] # evs)"
proof -
  have i: "input_file example_env (InputDir example_cfg) (InputFile example_cfg) = Contents ''[]''"
    by (simp add: example_env_def)
  have u: "Unmarshal_MessagesIn ''[]'' = (False, [])"
    by (simp add: Unmarshal_MessagesIn_def scan_examples)
  have l: "load_messages (prompt_file example_env) (PromptsDir example_cfg) [] = Inr []"
    by (simp add: load_messages_def)
  from initial_action [of example_env example_cfg "''[]''" "[]" "[]"] i u l
  have 1: "main example_cfg example_env = session example_cfg example_env [] \<and>
      (\<exists>evs. fst (session example_cfg example_env []) = InitScreen 0 0 0 # Prompt # evs)"
    by (simp add: displayInitScreen_def)
  from initial_action [of example_env example_cfg "''[]''" "[]"
      "[\<lparr>Role = ''user'', Content = ''ping''\<rparr>]"]
  have 2: "\<exists>evs. fst (session example_cfg example_env [\<lparr>Role = ''user'', Content = ''ping''\<rparr>]) =
      InitScreen 0 1 0 # RemoteCall ''org/model'' [\<lparr>Role = ''user'', Content = ''ping''\<rparr>] # evs"
    by (simp add: USER_def example_cfg_def displayInitScreen_def)
  from 1 2 show ?thesis by simp
qed

text \<open>
  C9. When a reply has been decoded and reading the next input line fails, the run goes on
  without ending and without a second prompt: the next event is a remote call with the
  conversation as the reply left it, no user turn added. With standard input at its end two
  replies in a row thus put two assistant turns next to each other. At the first prompt the
  same failure ends the process.
\<close>

theorem read_failure_mid_session:
  "(Unmarshal_ResponseBody t (responseBody st, spare st) = (False, rb, sp) \<and>
    fst (readUserInput (reader st)) = None \<longrightarrow>
      (\<exists>evs out. main_loop cfg env st (Responded 200 (Some t) # rs) =
         (RemoteCall (Model cfg) (messages st) # Prompt #
          RemoteCall (Model cfg) (with_reply rb (messages st)) # evs, out))) \<and>
   ((msgs = [] \<or> Role (last msgs) \<noteq> USER) \<and> fst (readUserInput (stdin env)) = None \<longrightarrow>
      session cfg env msgs = ([displayInitScreen msgs, Prompt], Fatal FirstInputFailed)) \<and>
   (\<exists>evs st'. main example_cfg eof_env = (evs, Waiting st') \<and>
      messages st' =
        [\<lparr>Role = ''user'', Content = ''hello''\<rparr>, \<lparr>Role = ''assistant'', Content = ''hi''\<rparr>,
         \<lparr>Role = ''assistant'', Content = ''hi''\<rparr>])"
proof (intro conjI impI)
  assume a: "Unmarshal_ResponseBody t (responseBody st, spare st) = (False, rb, sp) \<and>
    fst (readUserInput (reader st)) = None"
  then obtain rest where rd: "readUserInput (reader st) = (None, rest)"
    by (cases "readUserInput (reader st)") auto
  let ?st' = "\<lparr>messages = with_reply rb (messages st), responseBody = rb, spare = sp,
                 reader = rest\<rparr>"
  have it: "iteration cfg env (Responded 200 (Some t)) st = ([Prompt], Next ?st')"
    using a rd by (simp add: iteration_decoded)
  obtain evs out where
    "main_loop cfg env ?st' rs = (RemoteCall (Model cfg) (messages ?st') # evs, out)"
    using main_loop_head by blast
  with it have "main_loop cfg env st (Responded 200 (Some t) # rs) =
         (RemoteCall (Model cfg) (messages st) # Prompt #
          RemoteCall (Model cfg) (with_reply rb (messages st)) # evs, out)"
    by simp
  then show "\<exists>evs out. main_loop cfg env st (Responded 200 (Some t) # rs) =
         (RemoteCall (Model cfg) (messages st) # Prompt #
          RemoteCall (Model cfg) (with_reply rb (messages st)) # evs, out)"
    by blast
next
  assume a: "(msgs = [] \<or> Role (last msgs) \<noteq> USER) \<and> fst (readUserInput (stdin env)) = None"
  then have c: "length msgs = 0 \<or> Role (msgs ! (length msgs - 1)) \<noteq> USER"
    by (auto simp: last_conv_nth)
  from a obtain rest where "readUserInput (stdin env) = (None, rest)"
    by (cases "readUserInput (stdin env)") auto
  with c show "session cfg env msgs = ([displayInitScreen msgs, Prompt], Fatal FirstInputFailed)"
    by (simp add: session_def Let_def)
next
  show "\<exists>evs st'. main example_cfg eof_env = (evs, Waiting st') \<and>
      messages st' =
        [\<lparr>Role = ''user'', Content = ''hello''\<rparr>, \<lparr>Role = ''assistant'', Content = ''hi''\<rparr>,
         \<lparr>Role = ''assistant'', Content = ''hi''\<rparr>]"
    by (simp add: main_def session_def iteration_def quit_or_append_def load_messages_def
          Unmarshal_MessagesIn_def Unmarshal_ResponseBody_def scan_examples scan_reply_hi
          eof_env_def example_env_def example_cfg_def zero_MessageIn_def
          zero_ResponseBody_def zero_ResponseChoice_def member_ResponseBody_def
          member_ResponseChoice_def member_Message_def member_Usage_def lower_def
          TrimSuffix_def HasSuffix_def USER_def Let_def)
qed

text \<open>A reply followed by end of input in the loop, and end of input at the first prompt.\<close>

theorem read_failure_mid_session_witness:
  "(\<exists>evs out. main_loop example_cfg example_env example_state [Responded 200 (Some reply_hi)] =
      (RemoteCall ''org/model'' [\<lparr>Role = ''user'', Content = ''ping''\<rparr>] # Prompt #
       RemoteCall ''org/model''
         [\<lparr>Role = ''user'', Content = ''ping''\<rparr>, \<lparr>Role = ''assistant'', Content = ''hi''\<rparr>] # evs,
       out)) \<and>
   session example_cfg example_env [] = ([InitScreen 0 0 0, Prompt], Fatal FirstInputFailed)"
proof -
  have u: "Unmarshal_ResponseBody reply_hi (responseBody example_state, spare example_state) =
      (False, hi_ResponseBody, [])"
    by (simp add: Unmarshal_ResponseBody_def scan_reply_hi example_state_def hi_ResponseBody_def zero_ResponseBody_def
          zero_ResponseChoice_def member_ResponseBody_def member_ResponseChoice_def
          member_Message_def member_Usage_def lower_def Let_def)
  have r: "fst (readUserInput (reader example_state)) = None"
    by (simp add: example_state_def)
  have s: "fst (readUserInput (stdin example_env)) = None"
    by (simp add: example_env_def)
  from read_failure_mid_session [of reply_hi example_state hi_ResponseBody "[]" example_cfg
      example_env "[]" "[]"] u r s
  show ?thesis
    by (simp add: with_reply_def hi_ResponseBody_def example_state_def example_cfg_def
          displayInitScreen_def)
qed

subsection \<open>Quitting\<close>

text \<open>
  C3, as amended. At the first prompt and at every prompt of the loop: the line \<^verbatim>\<open>/quit!\<close> ends
  the run with no further event, so no transcript is written; the line \<^verbatim>\<open>/quit\<close> ends the run
  after one call of the transcript logger on the conversation as it stands, the quit line not
  being part of it. When the directory can be made and \<^verbatim>\<open>os.WriteFile\<close> succeeds, the logger has
  written one file, holding that conversation as an indented JSON array of role and content.
  When the directory cannot be made, or the file cannot be opened, there is no file; when
  the write stops with an error, the one file holds a leading part of that text. In all of
  these cases the error is logged and the run ends all the same. So a run leaves at most
  one file, at the transcript's path, and its bytes are a leading part of the transcript.
\<close>

theorem quit_commands:
  "((msgs = [] \<or> Role (last msgs) \<noteq> USER) \<and> readUserInput (stdin env) = (Some l, rest) \<longrightarrow>
      (l = ''/quit!'' \<longrightarrow> session cfg env msgs = ([displayInitScreen msgs, Prompt], Exit)) \<and>
      (l = ''/quit'' \<longrightarrow>
         session cfg env msgs = (displayInitScreen msgs # Prompt # save_events cfg env msgs, Exit))) \<and>
   (Unmarshal_ResponseBody t (responseBody st, spare st) = (False, rb, sp) \<and>
    readUserInput (reader st) = (Some l, rest) \<longrightarrow>
      (l = ''/quit!'' \<longrightarrow>
         main_loop cfg env st (Responded 200 (Some t) # rs) =
           ([RemoteCall (Model cfg) (messages st), Prompt], Exit)) \<and>
      (l = ''/quit'' \<longrightarrow>
         main_loop cfg env st (Responded 200 (Some t) # rs) =
           (RemoteCall (Model cfg) (messages st) # Prompt #
            save_events cfg env (with_reply rb (messages st)), Exit))) \<and>
   save_events cfg env msgs =
     (if \<not> mkdirall_ok env then [SaveFailed MkdirFailed None]
      else case writefile env of
        WriteDone \<Rightarrow> [Saved (transcript_path cfg env) (MarshalIndent_Messages msgs)]
      | OpenFileFailed \<Rightarrow> [SaveFailed WriteFailed None]
      | WriteStopped n \<Rightarrow>
          [SaveFailed WriteFailed
             (Some (transcript_path cfg env, take n (MarshalIndent_Messages msgs)))]) \<and>
   (mkdirall_ok env \<and> writefile env = WriteDone \<longrightarrow>
      files_left (save_events cfg env msgs) =
        [(transcript_path cfg env, MarshalIndent_Messages msgs)]) \<and>
   (\<not> mkdirall_ok env \<or> writefile env = OpenFileFailed \<longrightarrow>
      files_left (save_events cfg env msgs) = []) \<and>
   length (files_left (save_events cfg env msgs)) \<le> 1 \<and>
   (\<forall>file \<in> set (files_left (save_events cfg env msgs)).
      fst file = transcript_path cfg env \<and> prefix (snd file) (MarshalIndent_Messages msgs)) \<and>
   parse_json (MarshalIndent_Messages msgs) =
     Some (JArr (map (\<lambda>m. JObj [(''role'', JStr (to_valid_utf8 (Role m))),
                                 (''content'', JStr (to_valid_utf8 (Content m)))]) msgs))"
proof (intro conjI impI)
  assume a: "(msgs = [] \<or> Role (last msgs) \<noteq> USER) \<and> readUserInput (stdin env) = (Some l, rest)"
    and l: "l = ''/quit!''"
  from a have "length msgs = 0 \<or> Role (msgs ! (length msgs - 1)) \<noteq> USER"
    by (auto simp: last_conv_nth)
  with a l show "session cfg env msgs = ([displayInitScreen msgs, Prompt], Exit)"
    by (simp add: session_def Let_def quit_or_append_quit_now)
next
  assume a: "(msgs = [] \<or> Role (last msgs) \<noteq> USER) \<and> readUserInput (stdin env) = (Some l, rest)"
    and l: "l = ''/quit''"
  from a have "length msgs = 0 \<or> Role (msgs ! (length msgs - 1)) \<noteq> USER"
    by (auto simp: last_conv_nth)
  with a l show
    "session cfg env msgs = (displayInitScreen msgs # Prompt # save_events cfg env msgs, Exit)"
    by (simp add: session_def Let_def quit_or_append_quit)
next
  assume a: "Unmarshal_ResponseBody t (responseBody st, spare st) = (False, rb, sp) \<and>
    readUserInput (reader st) = (Some l, rest)" and l: "l = ''/quit!''"
  then have "iteration cfg env (Responded 200 (Some t)) st = ([Prompt], Return)"
    by (simp add: iteration_decoded quit_or_append_quit_now)
  then show "main_loop cfg env st (Responded 200 (Some t) # rs) =
           ([RemoteCall (Model cfg) (messages st), Prompt], Exit)"
    by simp
next
  assume a: "Unmarshal_ResponseBody t (responseBody st, spare st) = (False, rb, sp) \<and>
    readUserInput (reader st) = (Some l, rest)" and l: "l = ''/quit''"
  then have "iteration cfg env (Responded 200 (Some t)) st =
      (Prompt # save_events cfg env (with_reply rb (messages st)), Return)"
    by (simp add: iteration_decoded quit_or_append_quit)
  then show "main_loop cfg env st (Responded 200 (Some t) # rs) =
           (RemoteCall (Model cfg) (messages st) # Prompt #
            save_events cfg env (with_reply rb (messages st)), Exit)"
    by simp
next
  show "save_events cfg env msgs =
     (if \<not> mkdirall_ok env then [SaveFailed MkdirFailed None]
      else case writefile env of
        WriteDone \<Rightarrow> [Saved (transcript_path cfg env) (MarshalIndent_Messages msgs)]
      | OpenFileFailed \<Rightarrow> [SaveFailed WriteFailed None]
      | WriteStopped n \<Rightarrow>
          [SaveFailed WriteFailed
             (Some (transcript_path cfg env, take n (MarshalIndent_Messages msgs)))])"
    by (simp add: save_events_def split: write_outcome.splits)
next
  assume "mkdirall_ok env \<and> writefile env = WriteDone"
  then show "files_left (save_events cfg env msgs) =
        [(transcript_path cfg env, MarshalIndent_Messages msgs)]"
    by (simp add: save_events_def)
next
  assume "\<not> mkdirall_ok env \<or> writefile env = OpenFileFailed"
  then show "files_left (save_events cfg env msgs) = []"
    by (auto simp: save_events_def)
next
  show "length (files_left (save_events cfg env msgs)) \<le> 1"
    by (simp add: save_events_def split: write_outcome.splits)
next
  show "\<forall>file \<in> set (files_left (save_events cfg env msgs)).
      fst file = transcript_path cfg env \<and> prefix (snd file) (MarshalIndent_Messages msgs)"
    by (simp add: save_events_def take_is_prefix split: write_outcome.splits)
next
  have "Marshal_Messages msgs =
      JArr (map (\<lambda>m. JObj [(''role'', JStr (to_valid_utf8 (Role m))),
                                 (''content'', JStr (to_valid_utf8 (Content m)))]) msgs)"
    by (simp add: Marshal_Messages_def Marshal_Message_def)
  then show "parse_json (MarshalIndent_Messages msgs) =
     Some (JArr (map (\<lambda>m. JObj [(''role'', JStr (to_valid_utf8 (Role m))),
                                 (''content'', JStr (to_valid_utf8 (Content m)))]) msgs))"
    using parse_MarshalIndent [of msgs] by simp
qed

text \<open>\<^verbatim>\<open>/quit\<close> at the first prompt of an empty conversation, with the one file it leaves, and
  \<^verbatim>\<open>/quit!\<close> after a reply.\<close>

theorem quit_commands_witness:
  "session example_cfg quit_env [] =
     ([InitScreen 0 0 0, Prompt,
       Saved [''logs'', ''org_model'', ''2025-01-01T00:00:00Z.log.json''] ''[]''], Exit) \<and>
   files_left (fst (session example_cfg quit_env [])) =
     [([''logs'', ''org_model'', ''2025-01-01T00:00:00Z.log.json''], ''[]'')] \<and>
   main_loop example_cfg example_env quit_now_state [Responded 200 (Some reply_hi)] =
     ([RemoteCall ''org/model'' [\<lparr>Role = ''user'', Content = ''ping''\<rparr>], Prompt], Exit)"
proof -
  have u: "Unmarshal_ResponseBody reply_hi (responseBody quit_now_state, spare quit_now_state) =
      (False, hi_ResponseBody, [])"
    by (simp add: Unmarshal_ResponseBody_def scan_reply_hi quit_now_state_def example_state_def hi_ResponseBody_def
          zero_ResponseBody_def zero_ResponseChoice_def member_ResponseBody_def
          member_ResponseChoice_def member_Message_def member_Usage_def lower_def Let_def)
  have r: "readUserInput (reader quit_now_state) = (Some ''/quit!'', [])"
    by (simp add: quit_now_state_def example_state_def TrimSuffix_def HasSuffix_def)
  have s: "readUserInput (stdin quit_env) = (Some ''/quit'', [])"
    by (simp add: quit_env_def example_env_def TrimSuffix_def HasSuffix_def)
  have ok: "mkdirall_ok quit_env \<and> writefile quit_env = WriteDone"
    by (simp add: quit_env_def example_env_def)
  from quit_commands [of "[]" quit_env "''/quit''" "[]" example_cfg reply_hi quit_now_state
      hi_ResponseBody "[]" "[]"] s ok
  have 1: "session example_cfg quit_env [] =
     ([InitScreen 0 0 0, Prompt,
       Saved [''logs'', ''org_model'', ''2025-01-01T00:00:00Z.log.json''] ''[]''], Exit)"
    by (simp add: save_events_def transcript_path_def quit_env_def
          example_env_def example_cfg_def displayInitScreen_def)
  from quit_commands [of "[]" example_env "''/quit!''" "[]" example_cfg reply_hi quit_now_state
      hi_ResponseBody "[]" "[]"] u r
  have 2: "main_loop example_cfg example_env quit_now_state [Responded 200 (Some reply_hi)] =
     ([RemoteCall ''org/model'' [\<lparr>Role = ''user'', Content = ''ping''\<rparr>], Prompt], Exit)"
    by (simp add: quit_now_state_def example_state_def example_cfg_def)
  from 1 2 show ?thesis by simp
qed

text \<open>C3 as stated fails where the log directory cannot be made: \<^verbatim>\<open>/quit\<close> then ends the run
  with the error logged and no transcript written. It also fails where the write stops after
  the first byte: the file is there, holding an opening bracket instead of the transcript.\<close>

theorem quit_save_counterexample:
  "main example_cfg quit_nodir_env =
     ([InitScreen 0 0 0, Prompt, SaveFailed MkdirFailed None], Exit) \<and>
   main example_cfg quit_short_write_env =
     ([InitScreen 0 0 0, Prompt,
       SaveFailed WriteFailed
         (Some ([''logs'', ''org_model'', ''2025-01-01T00:00:00Z.log.json''], ''[''))], Exit)"
  by (simp add: run_defs quit_nodir_env_def quit_short_write_env_def)

subsection \<open>A reply without choices\<close>

text \<open>A body without a \<^verbatim>\<open>choices\<close> member leaves the choices of the response variable as they
  were, so the loop treats the reply like the previous one.\<close>

lemma absent_choices_kept:
  "list_all (\<lambda>kv. foldName (fst kv) \<noteq> ''choices'') kvs \<Longrightarrow>
   Choices (fst (snd (foldl member_ResponseBody (e, rb, sp) kvs))) = Choices rb"
proof (induction kvs arbitrary: e rb sp)
  case Nil
  then show ?case by simp
next
  case (Cons kv kvs)
  obtain e' rb' sp' where st: "member_ResponseBody (e, rb, sp) kv = (e', rb', sp')"
    by (cases "member_ResponseBody (e, rb, sp) kv") auto
  have "Choices rb' = Choices rb"
    using st Cons.prems
    by (cases kv) (auto simp: member_ResponseBody_def split: if_splits prod.splits)
  with Cons.IH [of e' rb' sp'] Cons.prems st show ?case by simp
qed

lemma absent_choices_reply:
  "list_all (\<lambda>kv. foldName (fst kv) \<noteq> ''choices'') kvs \<Longrightarrow>
   scan body = JSONText (JObj kvs) \<Longrightarrow>
   Unmarshal_ResponseBody body (rb, sp) = (e, rb', sp') \<Longrightarrow>
   with_reply rb' msgs = with_reply rb msgs"
  using absent_choices_kept [of kvs False rb sp]
  by (simp add: with_reply_def Unmarshal_ResponseBody_def)

text \<open>
  C1. A reply with status 200 and a body that decodes without error but has no \<^verbatim>\<open>choices\<close>
  member, after an earlier reply that had a choice. The response variable still holds the
  earlier choice, so the earlier assistant turn is appended again: the user says hello, the
  remote answers hi, the user says thanks, the remote answers with an error object, and the
  transcript written at \<^verbatim>\<open>/quit\<close> holds four turns, the last being the repeated hi.
\<close>

theorem stale_choices_appended:
  "main example_cfg stale_env =
     ([InitScreen 0 0 0, Prompt,
       RemoteCall ''org/model'' [\<lparr>Role = ''user'', Content = ''hello''\<rparr>],
       Prompt,
       RemoteCall ''org/model''
         [\<lparr>Role = ''user'', Content = ''hello''\<rparr>, \<lparr>Role = ''assistant'', Content = ''hi''\<rparr>,
          \<lparr>Role = ''user'', Content = ''thanks''\<rparr>],
       Prompt,
       Saved [''logs'', ''org_model'', ''2025-01-01T00:00:00Z.log.json'']
         (MarshalIndent_Messages
            [\<lparr>Role = ''user'', Content = ''hello''\<rparr>, \<lparr>Role = ''assistant'', Content = ''hi''\<rparr>,
             \<lparr>Role = ''user'', Content = ''thanks''\<rparr>, \<lparr>Role = ''assistant'', Content = ''hi''\<rparr>])],
      Exit)"
  by (simp add: run_defs stale_env_def del: MarshalIndent_Messages.simps)

subsection \<open>Roles outside the three constants\<close>

lemma payloads_append: "payloads (xs @ ys) = payloads xs @ payloads ys"
  by (induction xs rule: payloads.induct) auto

lemma payloads_save_events: "payloads (save_events cfg env msgs) = []"
  by (simp add: save_events_def split: write_outcome.splits)

lemma payloads_quit_or_append:
  "quit_or_append cfg env msgs l = (evs, res) \<Longrightarrow> payloads evs = []"
proof (cases "l = ''/quit''")
  case True
  assume "quit_or_append cfg env msgs l = (evs, res)"
  with True have "evs = save_events cfg env msgs"
    by (simp add: quit_or_append_quit)
  then show ?thesis by (simp add: payloads_save_events)
next
  case False
  assume "quit_or_append cfg env msgs l = (evs, res)"
  with False show ?thesis
    by (auto simp: quit_or_append_def split: if_splits)
qed

lemma quit_or_append_prefix:
  "quit_or_append cfg env msgs l = (evs, Some msgs') \<Longrightarrow> prefix msgs msgs'"
  by (auto simp: quit_or_append_def split: if_splits sum.splits prod.splits)

lemma with_reply_prefix: "prefix msgs (with_reply rb msgs)"
  by (simp add: with_reply_def)

lemma iteration_grows:
  assumes "iteration cfg env r st = (evs, s)"
  shows "payloads evs = [] \<and> (\<forall>st'. s = Next st' \<longrightarrow> prefix (messages st) (messages st'))"
proof (cases "call_failed r (responseBody st, spare st)")
  case True
  from iteration_failed [OF True, of cfg env] assms show ?thesis by auto
next
  case False
  then obtain t rb sp where r: "r = Responded 200 (Some t)"
    and u: "Unmarshal_ResponseBody t (responseBody st, spare st) = (False, rb, sp)"
    by (rule not_failed_decoded)
  obtain inp rest where rd: "readUserInput (reader st) = (inp, rest)"
    by (cases "readUserInput (reader st)") auto
  show ?thesis
  proof (cases inp)
    case None
    with assms r rd show ?thesis
      by (auto simp: iteration_decoded [OF u] with_reply_prefix)
  next
    case (Some l)
    obtain qevs res where q: "quit_or_append cfg env (with_reply rb (messages st)) l = (qevs, res)"
      by (cases "quit_or_append cfg env (with_reply rb (messages st)) l") auto
    have p: "payloads qevs = []"
      using q by (rule payloads_quit_or_append)
    show ?thesis
    proof (cases res)
      case None
      with assms r rd Some q p show ?thesis
        by (auto simp: iteration_decoded [OF u])
    next
      case (Some msgs')
      with q have "prefix (with_reply rb (messages st)) msgs'"
        using quit_or_append_prefix by blast
      then have "prefix (messages st) msgs'"
        using with_reply_prefix prefix_order.trans by blast
      with assms r rd \<open>inp = Some l\<close> q p Some show ?thesis
        by (auto simp: iteration_decoded [OF u])
    qed
  qed
qed

lemma main_loop_payloads:
  "p \<in> set (payloads (fst (main_loop cfg env st rs))) \<Longrightarrow> prefix (messages st) p"
proof (induction rs arbitrary: st)
  case Nil
  then show ?case by simp
next
  case (Cons r rs)
  obtain evs s where it: "iteration cfg env r st = (evs, s)"
    by (cases "iteration cfg env r st") auto
  from iteration_grows [OF it] have pe: "payloads evs = []"
    and gr: "\<And>st'. s = Next st' \<Longrightarrow> prefix (messages st) (messages st')" by auto
  show ?case
  proof (cases s)
    case Return
    with it pe Cons.prems show ?thesis by simp
  next
    case (Next st')
    obtain evs' out where ml: "main_loop cfg env st' rs = (evs', out)"
      by (cases "main_loop cfg env st' rs") auto
    with it Next pe Cons.prems have "p = messages st \<or> p \<in> set (payloads evs')"
      by (simp add: payloads_append)
    then show ?thesis
    proof
      assume "p = messages st" then show ?thesis by simp
    next
      assume "p \<in> set (payloads evs')"
      then have "prefix (messages st') p"
        using Cons.IH [of st'] ml by simp
      with gr [OF Next] show ?thesis
        using prefix_order.trans by blast
    qed
  qed
qed

lemma session_payloads:
  assumes "p \<in> set (payloads (fst (session cfg env msgs)))"
  shows "prefix msgs p"
proof (cases "length msgs = 0 \<or> Role (msgs ! (length msgs - 1)) \<noteq> USER")
  case False
  let ?st = "\<lparr>messages = msgs, responseBody = zero_ResponseBody, spare = [], reader = stdin env\<rparr>"
  from False assms have "p \<in> set (payloads (fst (main_loop cfg env ?st (remote env))))"
    by (simp add: session_def Let_def displayInitScreen_def split: prod.splits)
  from main_loop_payloads [OF this] show ?thesis by simp
next
  case True
  obtain inp rest where rd: "readUserInput (stdin env) = (inp, rest)"
    by (cases "readUserInput (stdin env)") auto
  show ?thesis
  proof (cases inp)
    case None
    with True rd assms show ?thesis
      by (simp add: session_def Let_def displayInitScreen_def split: prod.splits)
  next
    case (Some l)
    obtain qevs res where q: "quit_or_append cfg env msgs l = (qevs, res)"
      by (cases "quit_or_append cfg env msgs l") auto
    have pq: "payloads qevs = []"
      using q by (rule payloads_quit_or_append)
    show ?thesis
    proof (cases res)
      case None
      with True rd Some q pq assms show ?thesis
        by (simp add: session_def Let_def displayInitScreen_def split: prod.splits)
    next
      case (Some msgs')
      let ?st = "\<lparr>messages = msgs', responseBody = zero_ResponseBody, spare = [], reader = rest\<rparr>"
      from True rd \<open>inp = Some l\<close> q pq Some assms
      have "p \<in> set (payloads (fst (main_loop cfg env ?st (remote env))))"
        by (simp add: session_def Let_def displayInitScreen_def payloads_append split: prod.splits)
      from main_loop_payloads [OF this] have "prefix msgs' p" by simp
      moreover from q Some have "prefix msgs msgs'"
        using quit_or_append_prefix by blast
      ultimately show ?thesis
        using prefix_order.trans by blast
    qed
  qed
qed

lemma count_roles_append:
  "count_roles (xs @ ys) c = count_roles ys (count_roles xs c)"
  by (induction xs c rule: count_roles.induct) auto

lemma count_roles_other:
  "Role m \<noteq> SYSTEM \<Longrightarrow> Role m \<noteq> USER \<Longrightarrow> Role m \<noteq> ASSISTANT \<Longrightarrow>
   count_roles (m # ys) c = count_roles ys c"
  by (cases c) simp

text \<open>
  C10. A record whose role is none of system, user and assistant is loaded as a turn with
  that role and its inline content; every remote call of the session carries that turn at the
  same position; and the counters of the banner are what they would be without it.
\<close>

theorem unknown_role_passes:
  assumes "Role r \<noteq> SYSTEM \<and> Role r \<noteq> USER \<and> Role r \<noteq> ASSISTANT"
    and "load_messages fs dir (pre @ r # post) = Inr ms"
  shows "ms ! length pre = \<lparr>Role = Role r, Content = Content r\<rparr> \<and>
    (\<forall>p \<in> set (payloads (fst (session cfg env ms))).
        length pre < length p \<and> p ! length pre = \<lparr>Role = Role r, Content = Content r\<rparr>) \<and>
    displayInitScreen ms = displayInitScreen (take (length pre) ms @ drop (Suc (length pre)) ms)"
proof -
  let ?t = "\<lparr>Role = Role r, Content = Content r\<rparr>"
  let ?f = "loaded_turn fs dir"
  have ms: "ms = map ?f pre @ ?f r # map ?f post"
    using load_messages_Inr [OF assms(2)] by simp
  have t: "?f r = ?t"
    using assms(1) by (simp add: loaded_turn_def)
  have at: "ms ! length pre = ?t"
    using ms t by (simp add: nth_append)
  have len: "length pre < length ms"
    using ms by simp
  have sent: "\<forall>p \<in> set (payloads (fst (session cfg env ms))).
        length pre < length p \<and> p ! length pre = ?t"
  proof
    fix p assume "p \<in> set (payloads (fst (session cfg env ms)))"
    then have "prefix ms p" by (rule session_payloads)
    then obtain zs where "p = ms @ zs" by (auto simp: prefix_def)
    with at len show "length pre < length p \<and> p ! length pre = ?t"
      by (simp add: nth_append)
  qed
  have split: "take (length pre) ms @ drop (Suc (length pre)) ms = map ?f pre @ map ?f post"
    using ms by simp
  have "count_roles ms (0, 0, 0) = count_roles (map ?f pre @ map ?f post) (0, 0, 0)"
    using assms(1) unfolding ms t count_roles_append
    by (simp add: count_roles_other)
  then have "displayInitScreen ms = displayInitScreen (take (length pre) ms @ drop (Suc (length pre)) ms)"
    unfolding split by (simp add: displayInitScreen_def)
  with at sent show ?thesis by blast
qed

text \<open>A single record with role \<open>tool\<close>, then one user line and one reply.\<close>

theorem unknown_role_passes_witness:
  "load_messages (prompt_file tool_env) ''prompts'' [tool_record] =
     Inr [\<lparr>Role = ''tool'', Content = ''42''\<rparr>] \<and>
   payloads (fst (session example_cfg tool_env [\<lparr>Role = ''tool'', Content = ''42''\<rparr>])) =
     [[\<lparr>Role = ''tool'', Content = ''42''\<rparr>, \<lparr>Role = ''user'', Content = ''go on''\<rparr>],
      [\<lparr>Role = ''tool'', Content = ''42''\<rparr>, \<lparr>Role = ''user'', Content = ''go on''\<rparr>,
       \<lparr>Role = ''assistant'', Content = ''hi''\<rparr>]] \<and>
   displayInitScreen [\<lparr>Role = ''tool'', Content = ''42''\<rparr>] = displayInitScreen []"
proof -
  have l: "load_messages (prompt_file tool_env) ''prompts'' ([] @ tool_record # []) =
      Inr [\<lparr>Role = ''tool'', Content = ''42''\<rparr>]"
    by (simp add: load_messages_def tool_record_def SYSTEM_def)
  have r: "Role tool_record \<noteq> SYSTEM \<and> Role tool_record \<noteq> USER \<and> Role tool_record \<noteq> ASSISTANT"
    by (simp add: tool_record_def SYSTEM_def USER_def ASSISTANT_def)
  have p: "payloads (fst (session example_cfg tool_env [\<lparr>Role = ''tool'', Content = ''42''\<rparr>])) =
     [[\<lparr>Role = ''tool'', Content = ''42''\<rparr>, \<lparr>Role = ''user'', Content = ''go on''\<rparr>],
      [\<lparr>Role = ''tool'', Content = ''42''\<rparr>, \<lparr>Role = ''user'', Content = ''go on''\<rparr>,
       \<lparr>Role = ''assistant'', Content = ''hi''\<rparr>]]"
    by (simp add: run_defs tool_env_def)
  from unknown_role_passes [OF r l, of example_cfg tool_env] l p show ?thesis
    by (simp add: tool_record_def)
qed

subsection \<open>Transcript and input file\<close>

lemma foldName_fields [simp]:
  "foldName ''role'' = ''role''" "foldName ''content'' = ''content''"
  by (simp_all add: lower_def)

lemma decode_written_Message:
  "decode_MessageIn (Marshal_Message m) zero_MessageIn =
     (False, \<lparr>Role = to_valid_utf8 (Role m), Content = to_valid_utf8 (Content m), File = []\<rparr>)"
  by (simp add: Marshal_Message_def member_MessageIn_def zero_MessageIn_def lower_def)

lemma Unmarshal_written:
  "Unmarshal_MessagesIn (MarshalIndent_Messages msgs) =
     (False, map (\<lambda>m. \<lparr>Role = to_valid_utf8 (Role m), Content = to_valid_utf8 (Content m),
                        File = []\<rparr>) msgs)"
  by (simp add: Unmarshal_MessagesIn_def scan_MarshalIndent Marshal_Messages_def Let_def comp_def
        decode_written_Message list_ex_iff del: MarshalIndent_Messages.simps)

lemma reload_as_written: "reload fs dir msgs = Inr (map as_written msgs)"
proof -
  let ?ins = "map (\<lambda>m. \<lparr>Role = to_valid_utf8 (Role m), Content = to_valid_utf8 (Content m),
                        File = []\<rparr>) msgs"
  have "\<not> list_ex (prompt_unavailable fs dir) ?ins"
    by (simp add: list_ex_iff prompt_unavailable_def)
  then have "load_loop fs dir 0 ?ins [] = Inr ([] @ map (loaded_turn fs dir) ?ins)"
    by (intro load_loop_ok) auto
  moreover have "map (loaded_turn fs dir) ?ins = map as_written msgs"
    by (simp add: loaded_turn_def as_written_def)
  ultimately show ?thesis
    by (simp add: reload_def Unmarshal_written load_messages_def del: MarshalIndent_Messages.simps)
qed

lemma to_valid_utf8_id: "ValidString s \<Longrightarrow> to_valid_utf8 s = s"
proof (induction s rule: to_valid_utf8.induct)
  case 1
  then show ?case by simp
next
  case (2 c cs)
  show ?case
  proof (cases "(of_char c :: nat) < 0x80")
    case True
    with 2 show ?thesis by simp
  next
    case False
    with "2.prems" obtain n where n: "rune_width c cs = Some n"
      by (cases "rune_width c cs") auto
    with False "2.prems" have "ValidString (drop (n - 1) cs)" by simp
    with "2.IH"(3) [OF False n] have "to_valid_utf8 (drop (n - 1) cs) = drop (n - 1) cs" .
    with False n show ?thesis by simp
  qed
qed

text \<open>
  C7, as amended. Writing a conversation as a transcript and reading the transcript back
  through the input path gives each turn as its JSON form holds it: invalid UTF-8 replaced by
  U+FFFD. For a conversation whose roles and contents are valid UTF-8 the result is the
  conversation itself.
\<close>

theorem transcript_round_trip:
  "reload fs dir msgs = Inr (map as_written msgs) \<and>
   ((\<forall>m \<in> set msgs. ValidString (Role m) \<and> ValidString (Content m)) \<longrightarrow>
      reload fs dir msgs = Inr msgs)"
proof (intro conjI impI)
  show "reload fs dir msgs = Inr (map as_written msgs)"
    by (rule reload_as_written)
next
  assume "\<forall>m \<in> set msgs. ValidString (Role m) \<and> ValidString (Content m)"
  then have "map as_written msgs = map id msgs"
    by (intro map_cong) (auto simp: as_written_def to_valid_utf8_id)
  then show "reload fs dir msgs = Inr msgs"
    by (simp add: reload_as_written)
qed

text \<open>A conversation with a two-byte UTF-8 sequence comes back unchanged.\<close>

theorem transcript_round_trip_witness:
  "reload (prompt_file example_env) ''prompts''
     [\<lparr>Role = ''user'', Content = ''hello''\<rparr>,
      \<lparr>Role = ''assistant'', Content = [CHR ''c'', CHR ''a'', CHR ''f'', CHR 0xC3, CHR 0xA9]\<rparr>] =
   Inr [\<lparr>Role = ''user'', Content = ''hello''\<rparr>,
        \<lparr>Role = ''assistant'', Content = [CHR ''c'', CHR ''a'', CHR ''f'', CHR 0xC3, CHR 0xA9]\<rparr>]"
proof -
  let ?msgs = "[\<lparr>Role = ''user'', Content = ''hello''\<rparr>,
      \<lparr>Role = ''assistant'', Content = [CHR ''c'', CHR ''a'', CHR ''f'', CHR 0xC3, CHR 0xA9]\<rparr>]"
  have v: "\<forall>m \<in> set ?msgs. ValidString (Role m) \<and> ValidString (Content m)"
    by (simp add: rune_width_def utf8_first_def continuation_def)
  from transcript_round_trip [of "prompt_file example_env" "''prompts''" ?msgs] v
  show ?thesis by blast
qed

text \<open>C7 as stated fails for a content that is not valid UTF-8, such as a line typed on a
  Latin-1 terminal: the byte E9 comes back as the three bytes of U+FFFD.\<close>

theorem round_trip_counterexample:
  "reload (prompt_file example_env) ''prompts'' latin1_conversation =
     Inr [\<lparr>Role = ''user'', Content = ''caf'' @ [CHR 0xEF, CHR 0xBF, CHR 0xBD]\<rparr>] \<and>
   reload (prompt_file example_env) ''prompts'' latin1_conversation \<noteq> Inr latin1_conversation"
  by (simp add: reload_as_written as_written_def latin1_conversation_def rune_width_def
        utf8_first_def)

lemma member_MessageIn_error:
  "fst (foldl member_MessageIn (e, m) kvs) \<longleftrightarrow> e \<or> \<not> list_all known_member_ok kvs"
proof (induction kvs arbitrary: e m)
  case Nil
  then show ?case by simp
next
  case (Cons kv kvs)
  obtain e' m' where st: "member_MessageIn (e, m) kv = (e', m')"
    by (cases "member_MessageIn (e, m) kv") auto
  have "e' \<longleftrightarrow> e \<or> \<not> known_member_ok kv"
  proof (cases kv)
    case (Pair k v)
    with st show ?thesis
      by (cases v) (auto simp: member_MessageIn_def known_member_ok_def split: if_splits)
  qed
  with Cons.IH [of e' m'] st show ?case by auto
qed

lemma decode_MessageIn_error: "fst (decode_MessageIn e m) \<longleftrightarrow> \<not> record_shaped e"
  by (cases e) (simp_all add: member_MessageIn_error)

lemma decode_MessagesIn_error: "fst (decode_MessagesIn w) \<longleftrightarrow> \<not> acceptable w"
proof (cases w)
  case Unparsable
  then show ?thesis by simp
next
  case (JSONText v)
  then show ?thesis
    by (cases v) (auto simp: Let_def list_ex_iff list_all_iff decode_MessageIn_error)
qed

lemma upper_role_refused: "\<not> acceptable (JSONText (JArr [JObj [(''ROLE'', JInt 5)]]))"
proof -
  have "foldName ''ROLE'' = ''role''"
    by code_simp
  then show ?thesis
    by (simp add: known_member_ok_def)
qed

lemma session_not_silent: "fst (session cfg env msgs) \<noteq> []"
  by (auto simp: session_def Let_def split: prod.splits option.splits)

text \<open>
  C8, as amended. The process ends with the invalid-input error, before any event, exactly
  when the input file is not acceptable. Acceptable are the JSON text \<^verbatim>\<open>null\<close> and every JSON
  array whose elements are \<^verbatim>\<open>null\<close> or objects in which each member whose name is role, content
  or file, compared ignoring the case of letters as \<^verbatim>\<open>encoding/json\<close> compares member names, is a
  string or \<^verbatim>\<open>null\<close>; members with other names do not matter. Not acceptable is everything
  else: bytes that the scanner does not take as one JSON text (a syntax error, no value at
  all, anything but white space after the value, nesting beyond \<^verbatim>\<open>maxNestingDepth\<close>), a boolean,
  a number, a string, an object, and an array with any other element.
\<close>

theorem input_file_acceptance:
  "input_file env (InputDir cfg) (InputFile cfg) = Contents w \<Longrightarrow>
   (main cfg env = ([], Fatal InvalidJSONInput)) = (\<not> acceptable (scan w))"
proof -
  assume c: "input_file env (InputDir cfg) (InputFile cfg) = Contents w"
  obtain err ins where u: "Unmarshal_MessagesIn w = (err, ins)"
    by (cases "Unmarshal_MessagesIn w") auto
  then have e: "err \<longleftrightarrow> \<not> acceptable (scan w)"
    using decode_MessagesIn_error [of "scan w"] by (simp add: Unmarshal_MessagesIn_def)
  show ?thesis
  proof (cases err)
    case True
    with c u e show ?thesis by (simp add: main_def)
  next
    case False
    show ?thesis
    proof (cases "load_messages (prompt_file env) (PromptsDir cfg) ins")
      case (Inl x)
      then have "x \<noteq> InvalidJSONInput"
        using load_messages_Inl by fastforce
      with c u e False Inl show ?thesis by (simp add: main_def)
    next
      case (Inr msgs)
      have "main cfg env = session cfg env msgs"
        using c u False Inr by (simp add: main_def)
      moreover have "session cfg env msgs \<noteq> ([], Fatal InvalidJSONInput)"
        using session_not_silent [of cfg env msgs] by auto
      ultimately show ?thesis using e False by simp
    qed
  qed
qed

text \<open>The empty array is accepted; an object in place of the array is fatal, and so is an
  array whose record has a number under the name \<^verbatim>\<open>ROLE\<close>.\<close>

theorem input_file_acceptance_witness:
  "main example_cfg example_env \<noteq> ([], Fatal InvalidJSONInput) \<and>
   main example_cfg object_env = ([], Fatal InvalidJSONInput) \<and>
   main example_cfg upper_role_env = ([], Fatal InvalidJSONInput)"
proof -
  from input_file_acceptance [of example_env example_cfg "''[]''"]
  have 1: "main example_cfg example_env \<noteq> ([], Fatal InvalidJSONInput)"
    by (simp add: example_env_def scan_examples)
  from input_file_acceptance [of object_env example_cfg "''{}''"]
  have 2: "main example_cfg object_env = ([], Fatal InvalidJSONInput)"
    by (simp add: example_env_def object_env_def scan_examples)
  from input_file_acceptance [of upper_role_env example_cfg "''[{\"ROLE\":5}]''"]
  have 3: "main example_cfg upper_role_env = ([], Fatal InvalidJSONInput)"
    by (simp add: example_env_def upper_role_env_def scan_examples upper_role_refused
          del: acceptable.simps)
  from 1 2 3 show ?thesis by simp
qed

text \<open>C8 as stated fails for the input \<^verbatim>\<open>null\<close>: it is accepted, gives the empty conversation,
  and the session starts with its prompt. It fails as well for an array whose element is
  \<^verbatim>\<open>null\<close> and for an array whose record has \<^verbatim>\<open>null\<close> as its role: both are accepted and load as
  one turn with empty role and empty content, as the transcript written at \<^verbatim>\<open>/quit\<close> shows.\<close>

theorem null_input_counterexample:
  "main example_cfg null_env = ([InitScreen 0 0 0, Prompt], Exit) \<and>
   main example_cfg null_element_env =
     ([InitScreen 0 0 0, Prompt,
       Saved [''logs'', ''org_model'', ''2025-01-01T00:00:00Z.log.json'']
         (MarshalIndent_Messages [\<lparr>Role = [], Content = []\<rparr>])], Exit) \<and>
   main example_cfg null_member_env =
     ([InitScreen 0 0 0, Prompt,
       Saved [''logs'', ''org_model'', ''2025-01-01T00:00:00Z.log.json'']
         (MarshalIndent_Messages [\<lparr>Role = [], Content = []\<rparr>])], Exit)"
  by (simp add: run_defs null_env_def null_element_env_def null_member_env_def SYSTEM_def
        ASSISTANT_def del: MarshalIndent_Messages.simps)

end
